theory Spec2Isabelle
  imports Complex_Main
begin

section \<open>The engine of \<open>src/index.ts\<close>\<close>

text \<open>
  The module keeps its state in top-level variables: the handles \<open>provider\<close> and
  \<open>wallet\<close> (undefined until \<open>initBlockchain\<close> sets them), the flags
  \<open>engineRunning\<close> and \<open>uhfRunning\<close>, the totals, the arrays \<open>strategies\<close> and
  \<open>opportunities\<close>, and the object \<open>stats\<close>. The model passes that state explicitly.

  Conventions of the model.
  \<^item> A JavaScript Number that holds a count or a timestamp is a \<open>nat\<close> (the counters
    start at 0 and only ever grow by 1; they are exact below \<open>2^53\<close>). A difference of
    two clock readings is an \<open>int\<close>.
  \<^item> A JavaScript Number that holds a fraction (profit, gas cost, running average)
    is a \<open>rat\<close>, with exact arithmetic. The withdrawal handler and the average
    of \<open>GET /api/flashloans\<close>, where the rounding of binary64 decides what is
    answered, are modelled with the rounding written out.
  \<^item> Everything the code gets from outside (the provider's answers, \<open>Date.now()\<close>,
    \<open>Math.random()\<close>) is a field of an environment record handed to the call.
  \<^item> An \<open>async\<close> function's result is an \<open>outcome\<close>: the value it returns or
    the error it throws.
\<close>

subsection \<open>Data\<close>

datatype error =
    WalletNotInitialized        \<comment> \<open>\<open>new Error('Wallet not initialized')\<close>\<close>
  | InsufficientBalanceForGas   \<comment> \<open>\<open>new Error('Insufficient balance for gas')\<close>\<close>
  | ProviderError               \<comment> \<open>a rejected promise of the provider or wallet\<close>
  | TypeError                   \<comment> \<open>a property access on \<open>undefined\<close>\<close>
  | InvalidArgument             \<comment> \<open>ethers rejects a string that is not a decimal number\<close>

datatype 'a outcome = Returned 'a | Thrown error

record strategy =
  sid :: string
  sname :: string
  stype :: string
  riskLevel :: string
  enabled :: bool
  priority :: int
  successRate :: rat
  totalTrades :: nat
  totalProfitUSD :: rat
  apy :: rat

record opportunity =
  oid :: string
  otype :: string
  profitETH :: rat
  gasPrice :: rat
  blockNumber :: nat
  timestamp :: nat

record stats =
  startTime :: nat
  trades :: nat
  successfulTrades :: nat
  failedTrades :: nat
  totalProfitETH :: rat
  totalGasCostETH :: rat
  avgLatencyMs :: rat
  lastTradeTime :: nat

text \<open>
  One loop instance (one call of \<open>tradingLoop\<close>) is suspended at one of its
  \<open>await\<close>s on the outside world, or has left the \<open>while\<close>.
\<close>

datatype pc =
    AwaitBlockNumber            \<comment> \<open>in \<open>scanOpportunities\<close>, at \<open>provider.getBlockNumber()\<close>\<close>
  | AwaitFeeData nat            \<comment> \<open>in \<open>scanOpportunities\<close>, at \<open>provider.getFeeData()\<close>\<close>
  | AwaitBalance nat nat        \<comment> \<open>in \<open>executeStrategy\<close>, at \<open>getBalance\<close>: strategy index, \<open>startTime\<close>\<close>
  | Sleeping nat                \<comment> \<open>at \<open>setTimeout(resolve, delay)\<close>\<close>
  | Exited

record engine =
  provider_set :: bool          \<comment> \<open>\<open>provider\<close> is not undefined\<close>
  wallet_set :: bool            \<comment> \<open>\<open>wallet\<close> is not undefined\<close>
  engineRunning :: bool
  uhfRunning :: bool
  g_totalTrades :: nat          \<comment> \<open>the top-level \<open>totalTrades\<close>\<close>
  g_totalProfitUSD :: rat       \<comment> \<open>the top-level \<open>totalProfitUSD\<close>\<close>
  strategies :: "strategy list"
  opportunities :: "opportunity list"
  stats :: stats
  loops :: "pc list"            \<comment> \<open>every \<open>tradingLoop()\<close> call made so far, in order\<close>

record env =
  getBlockNumber :: "nat outcome"
  getFeeData :: "nat option outcome"   \<comment> \<open>\<open>gasPrice\<close> in wei, or null\<close>
  getBalance :: "int outcome"          \<comment> \<open>a bigint, in wei\<close>
  now_a :: nat                         \<comment> \<open>readings of \<open>Date.now()\<close>, in the order taken\<close>
  now_b :: nat
  now_c :: nat
  random_a :: rat                      \<comment> \<open>draws of \<open>Math.random()\<close>, in the order taken\<close>
  random_b :: rat

definition initial_stats :: "nat \<Rightarrow> stats" where
  "initial_stats t0 = \<lparr>startTime = t0, trades = 0, successfulTrades = 0, failedTrades = 0,
     totalProfitETH = 0, totalGasCostETH = 0, avgLatencyMs = 0, lastTradeTime = 0\<rparr>"

text \<open>The state when the module has been loaded, before \<open>main\<close> runs.\<close>

definition initial_engine :: "nat \<Rightarrow> engine" where
  "initial_engine t0 = \<lparr>provider_set = False, wallet_set = False,
     engineRunning = False, uhfRunning = False, g_totalTrades = 0, g_totalProfitUSD = 0,
     strategies = [], opportunities = [], stats = initial_stats t0, loops = []\<rparr>"

subsection \<open>Number formatting\<close>

text \<open>
  \<open>x.toFixed(f)\<close>, for \<open>|x| < 10^21\<close>: the sign is set aside, and for the magnitude
  the integer \<open>n\<close> is taken for which \<open>n / 10^f\<close> is closest to it, the larger one of
  two; the string shows \<open>n / 10^f\<close> with the sign. The model keeps the number.
\<close>

definition toFixed_int :: "nat \<Rightarrow> rat \<Rightarrow> int" where
  "toFixed_int f x =
     (if x < 0 then - \<lfloor>- x * 10 ^ f + 1 / 2\<rfloor> else \<lfloor>x * 10 ^ f + 1 / 2\<rfloor>)"

definition toFixed :: "nat \<Rightarrow> rat \<Rightarrow> rat" where
  "toFixed f x = of_int (toFixed_int f x) / 10 ^ f"

subsection \<open>\<open>executeStrategy\<close>\<close>

record exec_result =
  success :: bool
  r_profitETH :: rat
  r_gasCostETH :: rat
  r_netProfitETH :: rat
  latencyMs :: int

text \<open>\<open>ethers.parseEther('0.001')\<close>, in wei.\<close>

definition gas_threshold :: int where
  "gas_threshold = 10 ^ 15"

text \<open>
  The part of \<open>executeStrategy\<close> up to its \<open>await\<close>: the readiness guard, the
  clock reading \<open>startTime = Date.now()\<close> (the argument \<open>now\<close>) and
  \<open>stats.trades++\<close>. The strategy is passed as its index in \<open>strategies\<close> (the
  loop passes \<open>strategies[k]\<close>, the object itself).
\<close>

definition executeStrategy_begin :: "nat \<Rightarrow> engine \<Rightarrow> nat outcome \<times> engine" where
  "executeStrategy_begin now s =
     (if \<not> wallet_set s \<or> \<not> provider_set s then (Thrown WalletNotInitialized, s)
      else (Returned now,
            s\<lparr>stats := (stats s)\<lparr>trades := trades (stats s) + 1\<rparr>\<rparr>))"

text \<open>The \<open>catch\<close> block: \<open>stats.failedTrades++; throw error\<close>.\<close>

definition exec_catch :: "error \<Rightarrow> engine \<Rightarrow> exec_result outcome \<times> engine" where
  "exec_catch err s =
     (Thrown err, s\<lparr>stats := (stats s)\<lparr>failedTrades := failedTrades (stats s) + 1\<rparr>\<rparr>)"

text \<open>
  The statements of the \<open>try\<close> block after the balance check, up to the update of
  the running average. None of them can throw.
\<close>

definition exec_stats_update :: "env \<Rightarrow> nat \<Rightarrow> stats \<Rightarrow> stats" where
  "exec_stats_update e start st =
     (let profit = random_a e * (5 / 1000) + 1 / 1000;
          gasCost = random_b e * (5 / 10000) + 2 / 10000;
          st1 = st\<lparr>successfulTrades := successfulTrades st + 1,
                   totalProfitETH := totalProfitETH st + profit,
                   totalGasCostETH := totalGasCostETH st + gasCost,
                   lastTradeTime := now_b e\<rparr>;
          latency = int (now_c e) - int start
      in st1\<lparr>avgLatencyMs :=
               (avgLatencyMs st1 * (of_nat (trades st1) - 1) + of_int latency)
                 / of_nat (trades st1)\<rparr>)"

text \<open>
  The part of \<open>executeStrategy\<close> after \<open>provider.getBalance\<close> has settled.
  \<open>strategy.totalTrades++\<close> throws a TypeError when the strategy is \<open>undefined\<close>
  (an index outside the array); the statistics updated before it stay updated and the
  \<open>catch\<close> block runs.
\<close>

definition executeStrategy_resume ::
    "env \<Rightarrow> nat \<Rightarrow> nat \<Rightarrow> engine \<Rightarrow> exec_result outcome \<times> engine" where
  "executeStrategy_resume e k start s =
     (case getBalance e of
        Thrown err \<Rightarrow> exec_catch err s
      | Returned balance \<Rightarrow>
          if balance < gas_threshold then exec_catch InsufficientBalanceForGas s
          else
            let profit = random_a e * (5 / 1000) + 1 / 1000;
                gasCost = random_b e * (5 / 10000) + 2 / 10000;
                latency = int (now_c e) - int start;
                s1 = s\<lparr>stats := exec_stats_update e start (stats s)\<rparr>
            in if k < length (strategies s1) then
                 let sg = strategies s1 ! k;
                     sg' = sg\<lparr>totalTrades := totalTrades sg + 1,
                              totalProfitUSD := totalProfitUSD sg + profit * 3450\<rparr>;
                     s2 = s1\<lparr>strategies := (strategies s1)[k := sg'],
                             g_totalTrades := g_totalTrades s1 + 1,
                             g_totalProfitUSD := g_totalProfitUSD s1 + profit * 3450\<rparr>
                 in (Returned \<lparr>success = True,
                               r_profitETH = toFixed 6 profit,
                               r_gasCostETH = toFixed 6 gasCost,
                               r_netProfitETH = toFixed 6 (profit - gasCost),
                               latencyMs = latency\<rparr>, s2)
               else exec_catch TypeError s1)"

text \<open>
  The whole call, when nothing else runs between its two parts (the loop that calls
  it is the only writer of \<open>stats\<close> as long as there is one loop).
\<close>

definition executeStrategy :: "env \<Rightarrow> nat \<Rightarrow> engine \<Rightarrow> exec_result outcome \<times> engine" where
  "executeStrategy e k s =
     (case executeStrategy_begin (now_a e) s of
        (Thrown err, s') \<Rightarrow> (Thrown err, s')
      | (Returned start, s') \<Rightarrow> executeStrategy_resume e k start s')"

subsection \<open>Strings of numbers\<close>

text \<open>The decimal digits of a number, as a template literal \<open>`${n}`\<close> prints them.\<close>

definition digit_char :: "nat \<Rightarrow> char" where
  "digit_char d = ''0123456789'' ! d"

fun show_nat :: "nat \<Rightarrow> string" where
  "show_nat n = (if n < 10 then [digit_char n] else show_nat (n div 10) @ [digit_char (n mod 10)])"

declare show_nat.simps [simp del]

text \<open>\<open>String.prototype.toUpperCase\<close> on the ASCII strings the code applies it to.\<close>

definition upper_char :: "char \<Rightarrow> char" where
  "upper_char c =
     (case map_of (zip ''abcdefghijklmnopqrstuvwxyz'' ''ABCDEFGHIJKLMNOPQRSTUVWXYZ'') c of
        Some u \<Rightarrow> u
      | None \<Rightarrow> c)"

definition toUpperCase :: "string \<Rightarrow> string" where
  "toUpperCase = map upper_char"

subsection \<open>\<open>generateStrategies\<close>\<close>

definition strategyTypes :: "string list" where
  "strategyTypes = [''sandwich'', ''frontrun'', ''backrun'', ''arbitrage'', ''liquidation'',
     ''jit_liquidity'', ''flash_swap'', ''triangular'', ''cross_dex'']"

text \<open>
  The object pushed in iteration \<open>i\<close>. The iteration draws \<open>Math.random()\<close> three
  times (priority, success rate, apy): \<open>rnd n\<close> is the \<open>n\<close>-th draw of the whole call.
\<close>

definition make_strategy :: "(nat \<Rightarrow> rat) \<Rightarrow> nat \<Rightarrow> strategy" where
  "make_strategy rnd i =
     (let type = strategyTypes ! (i mod length strategyTypes)
      in \<lparr>sid = ''STRAT-'' @ show_nat (i + 1),
          sname = toUpperCase type @ '' #'' @ show_nat (i + 1),
          stype = type,
          riskLevel = (if i mod 3 = 0 then ''high'' else if i mod 3 = 1 then ''medium'' else ''low''),
          enabled = True,
          priority = \<lfloor>rnd (3 * i) * 100\<rfloor>,
          successRate = 3 / 4 + rnd (3 * i + 1) * (2 / 10),
          totalTrades = 0,
          totalProfitUSD = 0,
          apy = 40000 + rnd (3 * i + 2) * 20000\<rparr>)"

text \<open>The loop \<open>for (let i = 0; i < 450; i++) strategies.push(...)\<close>.\<close>

function generate_from :: "(nat \<Rightarrow> rat) \<Rightarrow> nat \<Rightarrow> strategy list \<Rightarrow> strategy list" where
  "generate_from rnd i acc =
     (if i < 450 then generate_from rnd (i + 1) (acc @ [make_strategy rnd i]) else acc)"
  by pat_completeness auto
termination
  by (relation "measure (\<lambda>(rnd, i, acc). 450 - i)") auto

declare generate_from.simps [simp del]

definition generateStrategies :: "(nat \<Rightarrow> rat) \<Rightarrow> engine \<Rightarrow> engine" where
  "generateStrategies rnd s = s\<lparr>strategies := generate_from rnd 0 (strategies s)\<rparr>"

subsection \<open>\<open>scanOpportunities\<close>\<close>

datatype scan_value = Undefined | Null | Found opportunity

text \<open>
  The object literal \<open>opp\<close>. \<open>gasPrice || 0\<close> is 0 for \<open>null\<close> (and for \<open>0n\<close>);
  \<open>formatUnits(_, 'gwei')\<close> prints the wei divided by \<open>10^9\<close>.
\<close>

definition make_opportunity :: "env \<Rightarrow> nat \<Rightarrow> nat option \<Rightarrow> opportunity" where
  "make_opportunity e bn gp =
     \<lparr>oid = ''OPP-'' @ show_nat (now_a e),
      otype = ''arbitrage'',
      profitETH = toFixed 6 (1 / 1000 + random_a e * (1 / 100)),
      gasPrice = of_nat (case gp of None \<Rightarrow> 0 | Some g \<Rightarrow> g) / 10 ^ 9,
      blockNumber = bn,
      timestamp = now_b e\<rparr>"

text \<open>\<open>opportunities.push(opp); if (opportunities.length > 50) opportunities.shift();\<close>\<close>

definition push_opportunity :: "opportunity \<Rightarrow> opportunity list \<Rightarrow> opportunity list" where
  "push_opportunity opp ops =
     (let ops1 = ops @ [opp] in if length ops1 > 50 then tl ops1 else ops1)"

text \<open>The \<open>try\<close> block of \<open>scanOpportunities\<close>; a rejected provider call throws out of it.\<close>

definition scan_try :: "env \<Rightarrow> engine \<Rightarrow> scan_value outcome \<times> engine" where
  "scan_try e s =
     (case getBlockNumber e of
        Thrown err \<Rightarrow> (Thrown err, s)
      | Returned bn \<Rightarrow>
          (case getFeeData e of
             Thrown err \<Rightarrow> (Thrown err, s)
           | Returned gp \<Rightarrow>
               let opp = make_opportunity e bn gp
               in (Returned (Found opp),
                   s\<lparr>opportunities := push_opportunity opp (opportunities s)\<rparr>)))"

definition scanOpportunities :: "env \<Rightarrow> engine \<Rightarrow> scan_value outcome \<times> engine" where
  "scanOpportunities e s =
     (if \<not> provider_set s then (Returned Undefined, s)
      else case scan_try e s of
             (Thrown err, s') \<Rightarrow> (Returned Null, s')
           | (Returned v, s') \<Rightarrow> (Returned v, s'))"

text \<open>
  What a scan with a provider finds in environment \<open>e\<close>: nothing when one of the two
  provider calls is rejected, else the opportunity it builds.
\<close>

definition scan_found :: "env \<Rightarrow> opportunity option" where
  "scan_found e =
     (case getBlockNumber e of
        Thrown err \<Rightarrow> None
      | Returned bn \<Rightarrow>
          (case getFeeData e of
             Thrown err \<Rightarrow> None
           | Returned gp \<Rightarrow> Some (make_opportunity e bn gp)))"

text \<open>The last \<open>n\<close> elements of a list (all of it when it is shorter).\<close>

definition newest :: "nat \<Rightarrow> 'a list \<Rightarrow> 'a list" where
  "newest n xs = drop (length xs - n) xs"

text \<open>A run of calls of \<open>scanOpportunities\<close>, one environment for each.\<close>

fun scans :: "env list \<Rightarrow> engine \<Rightarrow> engine" where
  "scans [] s = s"
| "scans (e # es) s = scans es (snd (scanOpportunities e s))"

subsection \<open>\<open>tradingLoop\<close> and the commands\<close>

text \<open>
  JavaScript runs one piece of code at a time: a handler or a loop instance runs until
  it awaits the outside world (a provider call, a timer), and only then does another
  one run. A step of the model is one such piece.
\<close>

definition cadence :: "engine \<Rightarrow> nat" where
  "cadence s = (if uhfRunning s then 100 else 5000)"

definition set_pc :: "nat \<Rightarrow> pc \<Rightarrow> engine \<Rightarrow> engine" where
  "set_pc i p s = s\<lparr>loops := (loops s)[i := p]\<rparr>"

text \<open>
  A loop instance at \<open>while (engineRunning || uhfRunning)\<close>: it leaves, or it enters
  the body and calls \<open>scanOpportunities\<close>, which awaits the provider, or, with no
  provider, returns at once, so that the instance goes on to its delay.
\<close>

definition loop_entry :: "engine \<Rightarrow> pc" where
  "loop_entry s =
     (if engineRunning s \<or> uhfRunning s
      then (if provider_set s then AwaitBlockNumber else Sleeping (cadence s))
      else Exited)"

text \<open>A call \<open>tradingLoop()\<close>: a new instance, run to its first await.\<close>

definition tradingLoop :: "engine \<Rightarrow> engine" where
  "tradingLoop s = s\<lparr>loops := loops s @ [loop_entry s]\<rparr>"

text \<open>
  What instance \<open>i\<close> does with the value of \<open>await scanOpportunities()\<close>, up to its
  next await: the choice of a strategy, the first part of \<open>executeStrategy\<close>, and the
  \<open>catch\<close> of the loop (a delay of 10000) when that throws.
\<close>

definition after_scan :: "env \<Rightarrow> nat \<Rightarrow> scan_value \<Rightarrow> engine \<Rightarrow> engine" where
  "after_scan e i v s =
     (case v of
        Found opp \<Rightarrow>
          if length (strategies s) > 0 then
            (let k = nat \<lfloor>random_b e * of_nat (length (strategies s))\<rfloor>
             in case executeStrategy_begin (now_c e) s of
                  (Thrown err, s') \<Rightarrow> set_pc i (Sleeping 10000) s'
                | (Returned start, s') \<Rightarrow> set_pc i (AwaitBalance k start) s')
          else set_pc i (Sleeping (cadence s)) s
      | _ \<Rightarrow> set_pc i (Sleeping (cadence s)) s)"

text \<open>
  Instance \<open>i\<close> is resumed: what it awaited has settled, as \<open>e\<close> says. The code it
  then runs reads the clock and draws random numbers from the same fields of \<open>e\<close>
  as it does within a whole call of \<open>scanOpportunities\<close> or \<open>executeStrategy\<close>;
  the loop's own draw (the choice of a strategy) is \<open>random_b\<close>, and the
  \<open>startTime\<close> it reads after a scan is \<open>now_c\<close>.
\<close>

definition resume :: "env \<Rightarrow> nat \<Rightarrow> engine \<Rightarrow> engine" where
  "resume e i s =
     (if i < length (loops s) then
        (case loops s ! i of
           AwaitBlockNumber \<Rightarrow>
             (case getBlockNumber e of
                Thrown err \<Rightarrow> after_scan e i Null s
              | Returned bn \<Rightarrow> set_pc i (AwaitFeeData bn) s)
         | AwaitFeeData bn \<Rightarrow>
             (case getFeeData e of
                Thrown err \<Rightarrow> after_scan e i Null s
              | Returned gp \<Rightarrow>
                  let opp = make_opportunity e bn gp
                  in after_scan e i (Found opp)
                       (s\<lparr>opportunities := push_opportunity opp (opportunities s)\<rparr>))
         | AwaitBalance k start \<Rightarrow>
             (case executeStrategy_resume e k start s of
                (Thrown err, s') \<Rightarrow> set_pc i (Sleeping 10000) s'
              | (Returned r, s') \<Rightarrow> set_pc i (Sleeping (cadence s')) s')
         | Sleeping d \<Rightarrow> set_pc i (loop_entry s) s
         | Exited \<Rightarrow> s)
      else s)"

datatype response = Json nat string   \<comment> \<open>the HTTP status and the message or error text\<close>

definition api_start :: "engine \<Rightarrow> response \<times> engine" where
  "api_start s =
     (if engineRunning s then (Json 400 ''Engine already running'', s)
      else (Json 200 ''Main trading engine started'',
            tradingLoop (s\<lparr>engineRunning := True\<rparr>)))"

definition api_stop :: "engine \<Rightarrow> response \<times> engine" where
  "api_stop s =
     (Json 200 ''All engines stopped'', s\<lparr>engineRunning := False, uhfRunning := False\<rparr>)"

definition api_start_uhf :: "engine \<Rightarrow> response \<times> engine" where
  "api_start_uhf s =
     (if uhfRunning s then (Json 400 ''UHF engine already running'', s)
      else (Json 200 ''UHF engine started'',
            tradingLoop (s\<lparr>uhfRunning := True, engineRunning := True\<rparr>)))"

datatype event = Start | Stop | StartUhf | Resume nat env

fun step :: "event \<Rightarrow> engine \<Rightarrow> engine" where
  "step Start s = snd (api_start s)"
| "step Stop s = snd (api_stop s)"
| "step StartUhf s = snd (api_start_uhf s)"
| "step (Resume i e) s = resume e i s"

fun run :: "event list \<Rightarrow> engine \<Rightarrow> engine" where
  "run [] s = s"
| "run (ev # evs) s = run evs (step ev s)"

text \<open>The loop instances that have not left their \<open>while\<close>.\<close>

definition live_loops :: "engine \<Rightarrow> nat" where
  "live_loops s = length (filter (\<lambda>p. p \<noteq> Exited) (loops s))"

subsection \<open>Start-up, and the environments used in the examples\<close>

text \<open>
  \<open>main\<close>: \<open>initBlockchain\<close> sets \<open>provider\<close> and, with a private key, \<open>wallet\<close>
  (\<open>p\<close> and \<open>w\<close> say which of them it has set), then \<open>generateStrategies\<close> runs.
\<close>

definition after_main :: "bool \<Rightarrow> bool \<Rightarrow> (nat \<Rightarrow> rat) \<Rightarrow> nat \<Rightarrow> engine" where
  "after_main p w rnd t0 =
     generateStrategies rnd ((initial_engine t0)\<lparr>provider_set := p, wallet_set := w\<rparr>)"

text \<open>The provider answers; the wallet holds 1 ETH. The call takes 10 ms.\<close>

definition env_good :: env where
  "env_good = \<lparr>getBlockNumber = Returned 19000000, getFeeData = Returned (Some 20000000000),
     getBalance = Returned (10 ^ 18), now_a = 1000, now_b = 1004, now_c = 1010,
     random_a = 1 / 2, random_b = 1 / 5\<rparr>"

text \<open>The same, with a wallet of 0.0005 ETH, below the threshold of \<open>executeStrategy\<close>.\<close>

definition env_poor :: env where
  "env_poor = env_good\<lparr>getBalance := Returned (5 * 10 ^ 14)\<rparr>"

text \<open>A later scan: the next block, six seconds on.\<close>

definition env_later :: env where
  "env_later = env_good\<lparr>getBlockNumber := Returned 19000001, now_a := 7000, now_b := 7000\<rparr>"

text \<open>The provider rejects every call.\<close>

definition env_down :: env where
  "env_down = env_good\<lparr>getBlockNumber := Thrown ProviderError, getFeeData := Thrown ProviderError,
     getBalance := Thrown ProviderError\<rparr>"

text \<open>
  The category enumeration as the specification spells it, to compare with
  \<open>strategyTypes\<close>.
\<close>

definition spec_categories :: "string list" where
  "spec_categories = [''sandwich'', ''frontrun'', ''backrun'', ''arbitrage'', ''liquidation'',
     ''jit-liquidity'', ''flash-swap'', ''triangular'', ''cross-dex'']"

subsection \<open>Latencies and profit estimates of the examples\<close>

text \<open>The arithmetic mean, as the specification uses the word.\<close>

definition mean :: "int list \<Rightarrow> rat" where
  "mean xs = of_int (sum_list xs) / of_nat (length xs)"

text \<open>
  The balance call settles at time 1030: 20 ms after a call of \<open>executeStrategy\<close>
  that the loop has started at 1010.
\<close>

definition env_slow :: env where
  "env_slow = env_good\<lparr>now_c := 1030\<rparr>"

text \<open>The balance call settles at time 1060, after 50 ms.\<close>

definition env_slower :: env where
  "env_slower = env_good\<lparr>now_c := 1060\<rparr>"

text \<open>
  Two scans whose draws of \<open>Math.random\<close> (Numbers, so binary fractions) give the
  profit estimates \<open>0.005000\<close> and \<open>0.005001\<close>: \<open>0.001 + r * 0.01\<close> is
  0.005000244\<dots> and 0.005001464\<dots>, far from where the sixth decimal turns.
\<close>

definition env_5000 :: env where
  "env_5000 = env_good\<lparr>random_a := 3277 / 8192\<rparr>"

definition env_5001 :: env where
  "env_5001 = env_later\<lparr>random_a := 1639 / 4096\<rparr>"

subsection \<open>Measuring a loop instance\<close>

text \<open>
  How many awaits an instance is away, at most, from its next test of the flags:
  the test is made when it wakes from \<open>Sleeping\<close>.
\<close>

fun pc_rank :: "pc \<Rightarrow> nat" where
  "pc_rank AwaitBlockNumber = 4"
| "pc_rank (AwaitFeeData bn) = 3"
| "pc_rank (AwaitBalance k start) = 2"
| "pc_rank (Sleeping d) = 1"
| "pc_rank Exited = 0"




definition stopped :: "engine \<Rightarrow> bool" where
  "stopped s = (\<not> engineRunning s \<and> \<not> uhfRunning s)"

text \<open>Every call of \<open>tradingLoop\<close> made so far is still in its \<open>while\<close>.\<close>

definition all_live :: "engine \<Rightarrow> bool" where
  "all_live s = (\<forall>j<length (loops s). loops s ! j \<noteq> Exited)"

subsection \<open>Numbers in binary64\<close>

text \<open>
  A JavaScript Number is an IEEE 754 binary64 value, and every arithmetic operation
  and every conversion from a decimal string gives the representable value nearest
  to the exact result, a tie going to the even significand. \<open>binary64 q\<close> is that
  value for the exact result \<open>q\<close>: with \<open>2^e \<le> |q| < 2^(e+1)\<close> (and \<open>e\<close> no less
  than -1022, where the subnormal numbers begin) the representable values near \<open>q\<close>
  are the integer multiples of \<open>2^(e-52)\<close>. Results of magnitude \<open>2^1024\<close> and more,
  which are infinite in JavaScript, do not arise from a 256-bit balance or from the
  sum of the buffered profit estimates; the model leaves them finite.
\<close>

definition pow2 :: "int \<Rightarrow> rat" where
  "pow2 k = (if 0 \<le> k then 2 ^ nat k else 1 / 2 ^ nat (- k))"

text \<open>The position of the leading bit of a positive integer.\<close>

function ilog2 :: "int \<Rightarrow> nat" where
  "ilog2 n = (if n < 2 then 0 else Suc (ilog2 (n div 2)))"
  by pat_completeness auto
termination
  by (relation "measure nat") auto

declare ilog2.simps [simp del]

text \<open>The \<open>e\<close> with \<open>2^e \<le> q < 2^(e+1)\<close>, for a positive \<open>q\<close>.\<close>

definition exponent_of :: "rat \<Rightarrow> int" where
  "exponent_of q =
     (let (a, b) = quotient_of q;
          k = int (ilog2 a) - int (ilog2 b)
      in if pow2 k \<le> q then k else k - 1)"

definition round_half_even :: "rat \<Rightarrow> int" where
  "round_half_even x =
     (let f = \<lfloor>x\<rfloor>; r = x - of_int f
      in if r < 1 / 2 then f else if 1 / 2 < r then f + 1 else if even f then f else f + 1)"

definition binary64 :: "rat \<Rightarrow> rat" where
  "binary64 q =
     (if q = 0 then 0
      else let e = max (exponent_of \<bar>q\<bar>) (- 1022);
               ulp = pow2 (e - 52)
           in sgn q * of_int (round_half_even (\<bar>q\<bar> / ulp)) * ulp)"

subsection \<open>\<open>GET /api/flashloans\<close>\<close>

record flashloans =
  total :: nat
  fl_opportunities :: "opportunity list"
  best :: "opportunity option"
  detected :: nat
  avgProfitETH :: rat

text \<open>
  \<open>opportunities[0] || null\<close> is \<open>null\<close> on the empty array. The average is
  computed in Numbers. The \<open>reduce\<close> goes through the array from the left, starting
  from 0: \<open>parseFloat(o.profitETH)\<close> is the binary64 value nearest to the decimal
  string, and \<open>sum + \<dots>\<close> rounds the exact sum. The division by the length (a small
  integer, which is a Number as it stands) rounds once more, and \<open>toFixed(6)\<close>
  prints the exact value of the quotient rounded to six decimals. On the empty array
  the field is \<open>'0'\<close>.
\<close>

definition api_flashloans :: "engine \<Rightarrow> flashloans" where
  "api_flashloans s =
     (let ops = opportunities s
      in \<lparr>total = length ops,
          fl_opportunities = ops,
          best = (case ops of [] \<Rightarrow> None | opp # _ \<Rightarrow> Some opp),
          detected = length ops,
          avgProfitETH =
            (if length ops > 0
             then toFixed 6
                    (binary64 (foldl (\<lambda>sum opp. binary64 (sum + binary64 (profitETH opp))) 0 ops
                                 / of_nat (length ops)))
             else 0)\<rparr>)"

subsection \<open>\<open>POST /api/withdraw-all\<close>\<close>

definition BACKEND_WALLET :: string where
  "BACKEND_WALLET = ''0xe75C82c976Ecc954bfFbbB2e7Fb94652C791bea5''"

text \<open>
  \<open>process.env.PROFIT_WALLET_ADDRESS || BACKEND_WALLET\<close>: the variable may be unset,
  and the empty string is falsy.
\<close>

definition PROFIT_WALLET :: "string option \<Rightarrow> string" where
  "PROFIT_WALLET v =
     (case v of None \<Rightarrow> BACKEND_WALLET | Some a \<Rightarrow> if a = [] then BACKEND_WALLET else a)"

text \<open>
  \<open>parseFloat(ethers.formatEther(balance)) - 0.01\<close>: \<open>formatEther\<close> prints the wei
  divided by \<open>10^18\<close> exactly, \<open>parseFloat\<close> and the literal \<open>0.01\<close> round to binary64,
  and so does the subtraction.
\<close>

definition withdrawAmount :: "int \<Rightarrow> rat" where
  "withdrawAmount balance = binary64 (binary64 (of_int balance / 10 ^ 18) - binary64 (1 / 100))"

record transaction =
  tx_to :: string
  tx_value :: int               \<comment> \<open>in wei\<close>
  tx_gasLimit :: int

record withdraw_env =
  w_getBalance :: "int outcome"          \<comment> \<open>\<open>provider.getBalance(wallet.address)\<close>\<close>
  sendTransaction :: "string outcome"    \<comment> \<open>\<open>wallet.sendTransaction(...)\<close>: the hash of what was sent\<close>
  tx_wait :: "string option outcome"     \<comment> \<open>\<open>tx.wait()\<close>: the hash of the receipt, or a null receipt\<close>

datatype withdraw_response =
    Refused nat string                   \<comment> \<open>the status 503 or 400 and the error text\<close>
  | ServerError error                    \<comment> \<open>the status 500, from the \<open>catch\<close>\<close>
  | Withdrawn "string option" rat string \<comment> \<open>\<open>txHash\<close>, \<open>amount\<close>, \<open>to\<close>\<close>

text \<open>
  The handler, with the list of the transactions it hands to \<open>wallet.sendTransaction\<close>.
  \<open>toFixed(18)\<close> of a number of \<open>10^21\<close> or more is in exponent notation, which
  \<open>ethers.parseEther\<close> rejects; below that, \<open>parseEther\<close> of the 18 decimals is the
  integer \<open>toFixed_int 18\<close>.
\<close>

definition api_withdraw_all ::
    "string option \<Rightarrow> withdraw_env \<Rightarrow> engine \<Rightarrow> withdraw_response \<times> transaction list" where
  "api_withdraw_all cfg w s =
     (if \<not> wallet_set s \<or> \<not> provider_set s then (Refused 503 ''Wallet not initialized'', [])
      else case w_getBalance w of
        Thrown err \<Rightarrow> (ServerError err, [])
      | Returned balance \<Rightarrow>
          let amount = withdrawAmount balance
          in if amount \<le> 0 then (Refused 400 ''Insufficient balance to withdraw'', [])
             else if 10 ^ 21 \<le> amount then (ServerError InvalidArgument, [])
             else
               let tx = \<lparr>tx_to = PROFIT_WALLET cfg, tx_value = toFixed_int 18 amount,
                         tx_gasLimit = 21000\<rparr>
               in (case sendTransaction w of
                     Thrown err \<Rightarrow> (ServerError err, [tx])
                   | Returned hash \<Rightarrow>
                       (case tx_wait w of
                          Thrown err \<Rightarrow> (ServerError err, [tx])
                        | Returned receipt \<Rightarrow>
                            (Withdrawn receipt (toFixed 6 amount) (PROFIT_WALLET cfg), [tx]))))"

text \<open>A wallet of 1 ETH and one of 0.005 ETH; a network that sends and confirms.\<close>

definition one_ether :: int where
  "one_ether = 10 ^ 18"

definition small_balance :: int where
  "small_balance = 5 * 10 ^ 15"

definition wenv :: "int \<Rightarrow> withdraw_env" where
  "wenv b = \<lparr>w_getBalance = Returned b, sendTransaction = Returned ''0xabc'',
     tx_wait = Returned (Some ''0xabc'')\<rparr>"

section \<open>Theorems\<close>

subsection \<open>\<open>generateStrategies\<close>\<close>

lemma generate_from_eq:
  "i \<le> 450 \<Longrightarrow> generate_from rnd i acc = acc @ map (make_strategy rnd) [i..<450]"
proof (induction rnd i acc rule: generate_from.induct)
  case (1 rnd i acc)
  show ?case
  proof (cases "i < 450")
    case True
    then have "generate_from rnd i acc = generate_from rnd (i + 1) (acc @ [make_strategy rnd i])"
      by (subst generate_from.simps) simp
    also have "\<dots> = (acc @ [make_strategy rnd i]) @ map (make_strategy rnd) [i + 1..<450]"
      using True by (intro "1.IH") simp_all
    also have "\<dots> = acc @ map (make_strategy rnd) [i..<450]"
      using True by (simp add: upt_conv_Cons)
    finally show ?thesis .
  next
    case False
    with "1.prems" have "i = 450" by simp
    then show ?thesis by (subst generate_from.simps) simp
  qed
qed

lemma strategies_generateStrategies:
  "strategies (generateStrategies rnd s) = strategies s @ map (make_strategy rnd) [0..<450]"
  by (simp add: generateStrategies_def generate_from_eq)

lemma strategies_after_main:
  "strategies (after_main p w rnd t0) = map (make_strategy rnd) [0..<450]"
  by (simp add: after_main_def strategies_generateStrategies initial_engine_def)

lemma nth_strategies_after_main:
  "i < 450 \<Longrightarrow> strategies (after_main p w rnd t0) ! i = make_strategy rnd i"
  by (simp add: strategies_after_main)

lemma flags_after_main:
  "provider_set (after_main p w rnd t0) = p" "wallet_set (after_main p w rnd t0) = w"
  "engineRunning (after_main p w rnd t0) = False" "uhfRunning (after_main p w rnd t0) = False"
  "loops (after_main p w rnd t0) = []" "opportunities (after_main p w rnd t0) = []"
  "stats (after_main p w rnd t0) = initial_stats t0"
  by (simp_all add: after_main_def generateStrategies_def initial_engine_def)

lemma set_pc_simps [simp]:
  "engineRunning (set_pc i p s) = engineRunning s"
  "uhfRunning (set_pc i p s) = uhfRunning s"
  "provider_set (set_pc i p s) = provider_set s"
  "wallet_set (set_pc i p s) = wallet_set s"
  "stats (set_pc i p s) = stats s"
  "strategies (set_pc i p s) = strategies s"
  "opportunities (set_pc i p s) = opportunities s"
  "loops (set_pc i p s) = (loops s)[i := p]"
  by (simp_all add: set_pc_def)

lemma length_strategyTypes: "length strategyTypes = 9"
  by (simp add: strategyTypes_def)

lemma priority_bounds:
  assumes "0 \<le> r" "r < (1::rat)"
  shows "0 \<le> \<lfloor>r * 100\<rfloor> \<and> \<lfloor>r * 100\<rfloor> < 100"
proof -
  have "0 \<le> r * 100" using assms by simp
  moreover have "r * 100 < 100" using assms by simp
  ultimately show ?thesis by (simp add: floor_less_iff)
qed

lemma make_strategy_props:
  assumes "\<forall>n. 0 \<le> rnd n \<and> rnd n < 1"
  shows "stype (make_strategy rnd i) = strategyTypes ! (i mod 9) \<and>
         riskLevel (make_strategy rnd i) =
           (if i mod 3 = 0 then ''high'' else if i mod 3 = 1 then ''medium'' else ''low'') \<and>
         0 \<le> priority (make_strategy rnd i) \<and> priority (make_strategy rnd i) < 100 \<and>
         3 / 4 \<le> successRate (make_strategy rnd i) \<and> successRate (make_strategy rnd i) < 19 / 20 \<and>
         enabled (make_strategy rnd i) \<and>
         totalTrades (make_strategy rnd i) = 0 \<and> totalProfitUSD (make_strategy rnd i) = 0"
proof -
  have a: "0 \<le> rnd (3 * i)" "rnd (3 * i) < 1" "0 \<le> rnd (3 * i + 1)" "rnd (3 * i + 1) < 1"
    using assms by auto
  show ?thesis
    using priority_bounds[OF a(1,2)] a(3,4)
    by (simp add: make_strategy_def Let_def length_strategyTypes)
qed

text \<open>
  Claim C9, as the code has it. Called on the empty registry with draws of
  \<open>Math.random()\<close> in \<open>[0, 1)\<close>, \<open>generateStrategies\<close> leaves exactly 450 records. The
  category of record \<open>i\<close> is entry \<open>i mod 9\<close> of the list sandwich, frontrun, backrun,
  arbitrage, liquidation, jit_liquidity, flash_swap, triangular, cross_dex (spelled
  with underscores); its risk tier is high, medium or low as \<open>i mod 3\<close> is 0, 1 or 2;
  its priority is an integer in \<open>[0, 100)\<close> and its success rate lies in
  \<open>[0.75, 0.95)\<close>; it is enabled, with zero cumulative trades and zero cumulative
  profit.
\<close>

theorem generateStrategies_registry:
  assumes "\<forall>n. 0 \<le> rnd n \<and> rnd n < 1"
  shows "length (strategies (after_main p w rnd t0)) = 450 \<and>
         strategyTypes = [''sandwich'', ''frontrun'', ''backrun'', ''arbitrage'', ''liquidation'',
           ''jit_liquidity'', ''flash_swap'', ''triangular'', ''cross_dex''] \<and>
         (\<forall>i<450.
            stype (strategies (after_main p w rnd t0) ! i) = strategyTypes ! (i mod 9) \<and>
            riskLevel (strategies (after_main p w rnd t0) ! i) =
              (if i mod 3 = 0 then ''high'' else if i mod 3 = 1 then ''medium'' else ''low'') \<and>
            0 \<le> priority (strategies (after_main p w rnd t0) ! i) \<and>
            priority (strategies (after_main p w rnd t0) ! i) < 100 \<and>
            3 / 4 \<le> successRate (strategies (after_main p w rnd t0) ! i) \<and>
            successRate (strategies (after_main p w rnd t0) ! i) < 19 / 20 \<and>
            enabled (strategies (after_main p w rnd t0) ! i) \<and>
            totalTrades (strategies (after_main p w rnd t0) ! i) = 0 \<and>
            totalProfitUSD (strategies (after_main p w rnd t0) ! i) = 0)"
proof (intro conjI allI impI)
  show "length (strategies (after_main p w rnd t0)) = 450"
    by (simp add: strategies_after_main)
  show "strategyTypes = [''sandwich'', ''frontrun'', ''backrun'', ''arbitrage'', ''liquidation'',
           ''jit_liquidity'', ''flash_swap'', ''triangular'', ''cross_dex'']"
    by (simp add: strategyTypes_def)
next
  fix i :: nat
  assume i: "i < 450"
  note m = make_strategy_props[OF assms, of i] nth_strategies_after_main[OF i, of p w rnd t0]
  show "stype (strategies (after_main p w rnd t0) ! i) = strategyTypes ! (i mod 9)"
    using m by simp
  show "riskLevel (strategies (after_main p w rnd t0) ! i) =
          (if i mod 3 = 0 then ''high'' else if i mod 3 = 1 then ''medium'' else ''low'')"
    using m by simp
  show "0 \<le> priority (strategies (after_main p w rnd t0) ! i)" using m by simp
  show "priority (strategies (after_main p w rnd t0) ! i) < 100" using m by simp
  show "3 / 4 \<le> successRate (strategies (after_main p w rnd t0) ! i)" using m by simp
  show "successRate (strategies (after_main p w rnd t0) ! i) < 19 / 20" using m by simp
  show "enabled (strategies (after_main p w rnd t0) ! i)" using m by simp
  show "totalTrades (strategies (after_main p w rnd t0) ! i) = 0" using m by simp
  show "totalProfitUSD (strategies (after_main p w rnd t0) ! i) = 0" using m by simp
qed

theorem generateStrategies_registry_witness:
  "length (strategies (after_main True True (\<lambda>n. 1 / 2) 0)) = 450 \<and>
   stype (strategies (after_main True True (\<lambda>n. 1 / 2) 0) ! 5) = ''jit_liquidity'' \<and>
   riskLevel (strategies (after_main True True (\<lambda>n. 1 / 2) 0) ! 5) = ''low'' \<and>
   priority (strategies (after_main True True (\<lambda>n. 1 / 2) 0) ! 5) < 100 \<and>
   successRate (strategies (after_main True True (\<lambda>n. 1 / 2) 0) ! 5) < 19 / 20 \<and>
   enabled (strategies (after_main True True (\<lambda>n. 1 / 2) 0) ! 5)"
proof -
  have h: "\<forall>n::nat. 0 \<le> (1 / 2 :: rat) \<and> (1 / 2 :: rat) < 1" by simp
  have five: "(5::nat) < 450" by simp
  show ?thesis
    using generateStrategies_registry[OF h, of True True 0] five
    by (simp add: strategyTypes_def)
qed

text \<open>
  The sixth record's category is the string \<open>jit_liquidity\<close>, not the \<open>jit-liquidity\<close>
  of the enumeration as claim C9 spells it.
\<close>

theorem generateStrategies_category_counterexample:
  "stype (strategies (after_main True True (\<lambda>n. 1 / 2) 0) ! 5) = ''jit_liquidity'' \<and>
   spec_categories ! (5 mod 9) = ''jit-liquidity'' \<and>
   stype (strategies (after_main True True (\<lambda>n. 1 / 2) 0) ! 5) \<noteq> spec_categories ! (5 mod 9)"
  by (simp add: nth_strategies_after_main make_strategy_def strategyTypes_def
        spec_categories_def Let_def)

subsection \<open>\<open>executeStrategy\<close>: the counters\<close>

lemma not_ready_throws:
  "\<not> wallet_set s \<or> \<not> provider_set s \<Longrightarrow>
     executeStrategy e k s = (Thrown WalletNotInitialized, s)"
  by (simp add: executeStrategy_def executeStrategy_begin_def)

lemma stats_executeStrategy_ready:
  assumes "wallet_set s" "provider_set s" "k < length (strategies s)"
  shows "trades (stats (snd (executeStrategy e k s))) = trades (stats s) + 1 \<and>
         ((successfulTrades (stats (snd (executeStrategy e k s))) = successfulTrades (stats s) + 1 \<and>
           failedTrades (stats (snd (executeStrategy e k s))) = failedTrades (stats s)) \<or>
          (successfulTrades (stats (snd (executeStrategy e k s))) = successfulTrades (stats s) \<and>
           failedTrades (stats (snd (executeStrategy e k s))) = failedTrades (stats s) + 1))"
  using assms
  by (auto simp: executeStrategy_def executeStrategy_begin_def executeStrategy_resume_def
        exec_catch_def exec_stats_update_def Let_def split: outcome.splits)

lemma failedTrades_mono:
  "failedTrades (stats s) \<le> failedTrades (stats (snd (executeStrategy e k s)))"
  by (auto simp: executeStrategy_def executeStrategy_begin_def executeStrategy_resume_def
        exec_catch_def exec_stats_update_def Let_def split: outcome.splits)

text \<open>
  Claim C10. Called while \<open>wallet\<close> or \<open>provider\<close> is undefined, \<open>executeStrategy\<close>
  throws \<open>Wallet not initialized\<close> and changes nothing: the whole state, and so each of
  \<open>trades\<close>, \<open>successfulTrades\<close>, \<open>failedTrades\<close>, \<open>totalProfitETH\<close>,
  \<open>totalGasCostETH\<close>, \<open>avgLatencyMs\<close> and \<open>lastTradeTime\<close>, is as it was.
\<close>

theorem executeStrategy_not_ready_unchanged:
  assumes "\<not> wallet_set s \<or> \<not> provider_set s"
  shows "fst (executeStrategy e k s) = Thrown WalletNotInitialized \<and>
         snd (executeStrategy e k s) = s \<and>
         trades (stats (snd (executeStrategy e k s))) = trades (stats s) \<and>
         successfulTrades (stats (snd (executeStrategy e k s))) = successfulTrades (stats s) \<and>
         failedTrades (stats (snd (executeStrategy e k s))) = failedTrades (stats s) \<and>
         totalProfitETH (stats (snd (executeStrategy e k s))) = totalProfitETH (stats s) \<and>
         totalGasCostETH (stats (snd (executeStrategy e k s))) = totalGasCostETH (stats s) \<and>
         avgLatencyMs (stats (snd (executeStrategy e k s))) = avgLatencyMs (stats s) \<and>
         lastTradeTime (stats (snd (executeStrategy e k s))) = lastTradeTime (stats s)"
  by (simp add: not_ready_throws[OF assms])

theorem executeStrategy_not_ready_unchanged_witness:
  "\<not> wallet_set (after_main True False (\<lambda>n. 1 / 2) 0) \<and>
   fst (executeStrategy env_good 7 (after_main True False (\<lambda>n. 1 / 2) 0))
     = Thrown WalletNotInitialized \<and>
   snd (executeStrategy env_good 7 (after_main True False (\<lambda>n. 1 / 2) 0))
     = after_main True False (\<lambda>n. 1 / 2) 0 \<and>
   trades (stats (snd (executeStrategy env_good 7 (after_main True False (\<lambda>n. 1 / 2) 0)))) = 0"
proof -
  have h: "\<not> wallet_set (after_main True False (\<lambda>n. 1 / 2) 0)
           \<or> \<not> provider_set (after_main True False (\<lambda>n. 1 / 2) 0)"
    by (simp add: flags_after_main)
  show ?thesis
    using executeStrategy_not_ready_unchanged[OF h, of env_good 7]
    by (simp add: flags_after_main initial_stats_def)
qed

text \<open>
  Claim C3, as the code has it. A call of \<open>executeStrategy\<close> that passes the readiness
  check, with a strategy of the registry (as the loop passes), adds exactly 1 to
  \<open>trades\<close> and exactly 1 to exactly one of \<open>successfulTrades\<close> and \<open>failedTrades\<close>;
  that covers a rejected balance call and a balance below the threshold. A call that
  fails the readiness check throws before any counter is touched and leaves the
  statistics as they were. No call decreases \<open>failedTrades\<close>.
\<close>

theorem executeStrategy_counters:
  "(wallet_set s \<and> provider_set s \<and> k < length (strategies s) \<longrightarrow>
      trades (stats (snd (executeStrategy e k s))) = trades (stats s) + 1 \<and>
      ((successfulTrades (stats (snd (executeStrategy e k s))) = successfulTrades (stats s) + 1 \<and>
        failedTrades (stats (snd (executeStrategy e k s))) = failedTrades (stats s)) \<or>
       (successfulTrades (stats (snd (executeStrategy e k s))) = successfulTrades (stats s) \<and>
        failedTrades (stats (snd (executeStrategy e k s))) = failedTrades (stats s) + 1))) \<and>
   (\<not> wallet_set s \<or> \<not> provider_set s \<longrightarrow>
      stats (snd (executeStrategy e k s)) = stats s) \<and>
   failedTrades (stats s) \<le> failedTrades (stats (snd (executeStrategy e k s)))"
  using stats_executeStrategy_ready[of s k e] not_ready_throws[of s e k]
    failedTrades_mono[of s e k]
  by auto

theorem executeStrategy_counters_witness:
  "wallet_set (after_main True True (\<lambda>n. 1 / 2) 0) \<and>
   provider_set (after_main True True (\<lambda>n. 1 / 2) 0) \<and>
   7 < length (strategies (after_main True True (\<lambda>n. 1 / 2) 0)) \<and>
   trades (stats (snd (executeStrategy env_poor 7 (after_main True True (\<lambda>n. 1 / 2) 0)))) = 1 \<and>
   successfulTrades (stats (snd (executeStrategy env_poor 7 (after_main True True (\<lambda>n. 1 / 2) 0)))) = 0 \<and>
   failedTrades (stats (snd (executeStrategy env_poor 7 (after_main True True (\<lambda>n. 1 / 2) 0)))) = 1 \<and>
   \<not> wallet_set (after_main True False (\<lambda>n. 1 / 2) 0) \<and>
   stats (snd (executeStrategy env_good 7 (after_main True False (\<lambda>n. 1 / 2) 0)))
     = stats (after_main True False (\<lambda>n. 1 / 2) 0)"
proof -
  have poor: "executeStrategy env_poor 7 (after_main True True (\<lambda>n. 1 / 2) 0)
     = exec_catch InsufficientBalanceForGas
         (snd (executeStrategy_begin 1000 (after_main True True (\<lambda>n. 1 / 2) 0)))"
    by (simp add: executeStrategy_def executeStrategy_begin_def executeStrategy_resume_def
          flags_after_main env_poor_def env_good_def gas_threshold_def)
  have succ: "successfulTrades (stats (snd (executeStrategy env_poor 7
                (after_main True True (\<lambda>n. 1 / 2) 0)))) = 0"
    by (simp add: poor exec_catch_def executeStrategy_begin_def flags_after_main initial_stats_def)
  show ?thesis
    using executeStrategy_counters[of "after_main True True (\<lambda>n. 1 / 2) 0" 7 env_poor]
      executeStrategy_counters[of "after_main True False (\<lambda>n. 1 / 2) 0" 7 env_good] succ
    by (simp add: flags_after_main strategies_after_main initial_stats_def)
qed

text \<open>
  Against claim C3 as stated: in read-only mode (a provider, no wallet) a call of
  \<open>executeStrategy\<close> leaves \<open>trades\<close>, \<open>successfulTrades\<close> and \<open>failedTrades\<close> at 0.
\<close>

theorem executeStrategy_counters_counterexample:
  "trades (stats (after_main True False (\<lambda>n. 1 / 2) 0)) = 0 \<and>
   trades (stats (snd (executeStrategy env_good 7 (after_main True False (\<lambda>n. 1 / 2) 0)))) = 0 \<and>
   successfulTrades (stats (snd (executeStrategy env_good 7 (after_main True False (\<lambda>n. 1 / 2) 0)))) = 0 \<and>
   failedTrades (stats (snd (executeStrategy env_good 7 (after_main True False (\<lambda>n. 1 / 2) 0)))) = 0"
  by (simp add: not_ready_throws flags_after_main initial_stats_def)

subsection \<open>\<open>scanOpportunities\<close> and the buffer\<close>

lemma scanOpportunities_cases:
  "scanOpportunities e s =
     (if \<not> provider_set s then (Returned Undefined, s)
      else case scan_found e of
             None \<Rightarrow> (Returned Null, s)
           | Some opp \<Rightarrow> (Returned (Found opp),
                          s\<lparr>opportunities := push_opportunity opp (opportunities s)\<rparr>))"
  by (simp add: scanOpportunities_def scan_try_def scan_found_def Let_def split: outcome.splits)

lemma length_push_opportunity:
  "length ops \<le> 50 \<Longrightarrow> length (push_opportunity opp ops) \<le> 50"
  by (simp add: push_opportunity_def Let_def)

lemma push_opportunity_full:
  "length ops = 50 \<Longrightarrow> push_opportunity opp ops = tl ops @ [opp]"
  by (cases ops) (simp_all add: push_opportunity_def Let_def)

lemma push_opportunity_room:
  "length ops < 50 \<Longrightarrow> push_opportunity opp ops = ops @ [opp]"
  by (simp add: push_opportunity_def Let_def)

lemma push_opportunity_newest:
  "push_opportunity opp (newest 50 xs) = newest 50 (xs @ [opp])"
proof (cases "length xs < 50")
  case True
  then show ?thesis by (simp add: push_opportunity_def newest_def Let_def)
next
  case False
  then have l: "50 \<le> length xs" by simp
  have ne: "drop (length xs - 50) xs \<noteq> []" using l by simp
  have "tl (drop (length xs - 50) xs @ [opp]) = tl (drop (length xs - 50) xs) @ [opp]"
    using ne by (cases "drop (length xs - 50) xs") simp_all
  also have "\<dots> = drop (Suc (length xs - 50)) xs @ [opp]"
    by (simp add: drop_Suc tl_drop)
  also have "\<dots> = drop (Suc (length xs - 50)) (xs @ [opp])"
    using l by simp
  finally have "tl (drop (length xs - 50) xs @ [opp]) = drop (Suc (length xs - 50)) (xs @ [opp])" .
  moreover have "Suc (length xs - 50) = Suc (length xs) - 50" using l by simp
  ultimately show ?thesis using l by (simp add: push_opportunity_def newest_def Let_def)
qed

lemma provider_set_scan: "provider_set (snd (scanOpportunities e s)) = provider_set s"
  by (simp add: scanOpportunities_cases split: option.splits)

lemma provider_set_scans: "provider_set (scans es s) = provider_set s"
  by (induction es arbitrary: s) (simp_all add: provider_set_scan)

lemma scans_newest:
  assumes "provider_set s" "opportunities s = newest 50 pre"
  shows "opportunities (scans es s) = newest 50 (pre @ List.map_filter scan_found es)"
  using assms
proof (induction es arbitrary: s pre)
  case Nil
  then show ?case by (simp add: map_filter_simps)
next
  case (Cons e es)
  show ?case
  proof (cases "scan_found e")
    case None
    then have "snd (scanOpportunities e s) = s"
      using Cons.prems by (simp add: scanOpportunities_cases)
    then show ?thesis using Cons.IH[OF Cons.prems] None by (simp add: map_filter_simps)
  next
    case (Some opp)
    let ?s' = "snd (scanOpportunities e s)"
    have a: "provider_set ?s'" using Cons.prems by (simp add: provider_set_scan)
    have b: "opportunities ?s' = newest 50 (pre @ [opp])"
      using Cons.prems Some by (simp add: scanOpportunities_cases push_opportunity_newest)
    show ?thesis using Cons.IH[OF a b] Some by (simp add: map_filter_simps)
  qed
qed

lemma scans_after_main:
  "opportunities (scans es (after_main True w rnd t0)) = newest 50 (List.map_filter scan_found es)"
  using scans_newest[of "after_main True w rnd t0" "[]" es]
  by (simp add: flags_after_main newest_def)

lemma scans_no_provider: "\<not> provider_set s \<Longrightarrow> scans es s = s"
  by (induction es arbitrary: s) (simp_all add: scanOpportunities_cases)

lemma length_scans:
  "length (opportunities s) \<le> 50 \<Longrightarrow> length (opportunities (scans es s)) \<le> 50"
  by (induction es arbitrary: s)
     (auto simp: scanOpportunities_cases length_push_opportunity split: option.splits)

lemma scans_two:
  "opportunities (scans [env_good, env_later] (after_main True True (\<lambda>n. 1 / 2) 0)) =
     [make_opportunity env_good 19000000 (Some 20000000000),
      make_opportunity env_later 19000001 (Some 20000000000)]"
  by (simp add: scanOpportunities_cases flags_after_main scan_found_def env_good_def
        env_later_def push_opportunity_def)

lemma after_scan_opportunities: "opportunities (after_scan e i v s) = opportunities s"
  by (auto simp: after_scan_def executeStrategy_begin_def Let_def split: scan_value.splits)

lemma exec_resume_opportunities:
  "opportunities (snd (executeStrategy_resume e k st s)) = opportunities s"
  by (auto simp: executeStrategy_resume_def exec_catch_def Let_def split: outcome.splits)

lemma resume_opportunities:
  "opportunities (resume e i s) = opportunities s \<or>
   (\<exists>opp. opportunities (resume e i s) = push_opportunity opp (opportunities s))"
proof (cases "i < length (loops s)")
  case False
  then show ?thesis by (simp add: resume_def)
next
  case True
  show ?thesis
  proof (cases "loops s ! i")
    case AwaitBlockNumber
    then show ?thesis using True
      by (cases "getBlockNumber e") (simp_all add: resume_def after_scan_opportunities)
  next
    case (AwaitFeeData bn)
    then show ?thesis using True
      by (cases "getFeeData e") (auto simp: resume_def after_scan_opportunities Let_def)
  next
    case (AwaitBalance k st)
    obtain r s' where r: "executeStrategy_resume e k st s = (r, s')"
      by (cases "executeStrategy_resume e k st s")
    have "opportunities s' = opportunities s"
      using exec_resume_opportunities[of e k st s] r by simp
    then show ?thesis using True AwaitBalance r by (cases r) (simp_all add: resume_def)
  next
    case (Sleeping d)
    then show ?thesis using True by (simp add: resume_def)
  next
    case Exited
    then show ?thesis using True by (simp add: resume_def)
  qed
qed

lemma step_opportunities_bound:
  assumes "length (opportunities s) \<le> 50"
  shows "length (opportunities (step ev s)) \<le> 50"
proof (cases ev)
  case Start
  then show ?thesis using assms by (simp add: api_start_def tradingLoop_def)
next
  case Stop
  then show ?thesis using assms by (simp add: api_stop_def)
next
  case StartUhf
  then show ?thesis using assms by (simp add: api_start_uhf_def tradingLoop_def)
next
  case (Resume i e)
  then show ?thesis
    using resume_opportunities[of e i s] assms length_push_opportunity[of "opportunities s"]
    by auto
qed

lemma run_opportunities_bound:
  "length (opportunities s) \<le> 50 \<Longrightarrow> length (opportunities (run evs s)) \<le> 50"
  by (induction evs arbitrary: s) (simp_all add: step_opportunities_bound)

lemma resume_scan_agrees:
  assumes "provider_set s" "i < length (loops s)" "loops s ! i = AwaitBlockNumber"
  shows "opportunities (resume e i (resume e i s)) = opportunities (snd (scanOpportunities e s))"
proof (cases "getBlockNumber e")
  case (Thrown err)
  have "opportunities (resume e i s) = opportunities s"
    using assms Thrown by (simp add: resume_def after_scan_opportunities)
  moreover have "opportunities (resume e i (resume e i s)) = opportunities (resume e i s)"
    using assms Thrown
    by (auto simp: resume_def after_scan_def Let_def)
  ultimately show ?thesis using assms Thrown
    by (simp add: scanOpportunities_cases scan_found_def)
next
  case (Returned bn)
  then have r1: "resume e i s = set_pc i (AwaitFeeData bn) s"
    using assms by (simp add: resume_def)
  show ?thesis
    using assms Returned unfolding r1
    by (cases "getFeeData e")
       (simp_all add: resume_def after_scan_opportunities scanOpportunities_cases scan_found_def Let_def)
qed

text \<open>
  Claim C5. In every state reached from start-up by calls of \<open>scanOpportunities\<close> the
  buffer holds at most 50 entries: it is the last 50 opportunities found, in the order
  found. The bound also holds in every state reached from start-up by commands and
  resumptions of loop instances, in any order. A call keeps a buffer of at most 50 at
  most 50; on a buffer of exactly 50 a scan that finds an opportunity drops the entry
  at the front, the oldest, and puts the new one at the back; on a shorter buffer it
  only puts the new one at the back.
\<close>

theorem opportunities_bounded_fifo:
  "length (opportunities (scans es (after_main p w rnd t0))) \<le> 50 \<and>
   length (opportunities (run evs (after_main p w rnd t0))) \<le> 50 \<and>
   opportunities (scans es (after_main True w rnd t0))
     = newest 50 (List.map_filter scan_found es) \<and>
   (length (opportunities s) \<le> 50 \<longrightarrow>
      length (opportunities (snd (scanOpportunities e s))) \<le> 50) \<and>
   (length (opportunities s) = 50 \<and> fst (scanOpportunities e s) = Returned (Found opp) \<longrightarrow>
      opportunities (snd (scanOpportunities e s)) = tl (opportunities s) @ [opp]) \<and>
   (length (opportunities s) < 50 \<and> fst (scanOpportunities e s) = Returned (Found opp) \<longrightarrow>
      opportunities (snd (scanOpportunities e s)) = opportunities s @ [opp])"
proof (intro conjI impI)
  show "length (opportunities (scans es (after_main p w rnd t0))) \<le> 50"
    by (rule length_scans) (simp add: flags_after_main)
  show "length (opportunities (run evs (after_main p w rnd t0))) \<le> 50"
    by (rule run_opportunities_bound) (simp add: flags_after_main)
  show "opportunities (scans es (after_main True w rnd t0))
          = newest 50 (List.map_filter scan_found es)"
    by (rule scans_after_main)
  show "length (opportunities (snd (scanOpportunities e s))) \<le> 50"
    if "length (opportunities s) \<le> 50"
    using that length_scans[of s "[e]"] by simp
  show "opportunities (snd (scanOpportunities e s)) = tl (opportunities s) @ [opp]"
    if "length (opportunities s) = 50 \<and> fst (scanOpportunities e s) = Returned (Found opp)"
    using that
    by (auto simp: scanOpportunities_cases push_opportunity_full split: if_splits option.splits)
  show "opportunities (snd (scanOpportunities e s)) = opportunities s @ [opp]"
    if "length (opportunities s) < 50 \<and> fst (scanOpportunities e s) = Returned (Found opp)"
    using that
    by (auto simp: scanOpportunities_cases push_opportunity_room split: if_splits option.splits)
qed

text \<open>
  The theorem at a buffer that is full: 50 scans after start-up, then one more. The
  buffer still holds 50 entries, the oldest is gone and the new one is at the back.
\<close>

theorem opportunities_bounded_fifo_witness:
  "length (opportunities (scans (replicate 50 env_good) (after_main True True (\<lambda>n. 1 / 2) 0))) = 50 \<and>
   fst (scanOpportunities env_later (scans (replicate 50 env_good) (after_main True True (\<lambda>n. 1 / 2) 0)))
     = Returned (Found (make_opportunity env_later 19000001 (Some 20000000000))) \<and>
   opportunities (snd (scanOpportunities env_later
       (scans (replicate 50 env_good) (after_main True True (\<lambda>n. 1 / 2) 0))))
     = tl (opportunities (scans (replicate 50 env_good) (after_main True True (\<lambda>n. 1 / 2) 0)))
       @ [make_opportunity env_later 19000001 (Some 20000000000)] \<and>
   length (opportunities (snd (scanOpportunities env_later
       (scans (replicate 50 env_good) (after_main True True (\<lambda>n. 1 / 2) 0))))) \<le> 50"
proof -
  let ?s = "scans (replicate 50 env_good) (after_main True True (\<lambda>n. 1 / 2) 0)"
  let ?opp = "make_opportunity env_later 19000001 (Some 20000000000)"
  have good: "scan_found env_good = Some (make_opportunity env_good 19000000 (Some 20000000000))"
    by (simp add: scan_found_def env_good_def)
  have "List.map_filter scan_found (replicate 50 env_good)
          = replicate 50 (make_opportunity env_good 19000000 (Some 20000000000))"
    by (simp add: List.map_filter_def good map_replicate_const)
  then have len: "length (opportunities ?s) = 50"
    by (simp add: scans_after_main newest_def)
  have prov: "provider_set ?s"
    by (simp add: provider_set_scans flags_after_main)
  have found: "fst (scanOpportunities env_later ?s) = Returned (Found ?opp)"
    using prov by (simp add: scanOpportunities_cases scan_found_def env_later_def env_good_def)
  show ?thesis
    using opportunities_bounded_fifo[of "replicate 50 env_good" True True "\<lambda>n. 1 / 2" 0 "[]" ?s
        env_later ?opp]
      len found
    by simp
qed

text \<open>
  Claim C7. \<open>scanOpportunities\<close> never throws: whatever the state and whatever the
  provider answers, it returns a value. With no provider it returns \<open>undefined\<close>; when
  \<open>getBlockNumber\<close> or \<open>getFeeData\<close> is rejected it returns \<open>null\<close>; in both cases
  the state, and with it the opportunity buffer, is unchanged.
\<close>

theorem scanOpportunities_never_throws:
  "(\<exists>v. fst (scanOpportunities e s) = Returned v) \<and>
   (\<not> provider_set s \<longrightarrow> scanOpportunities e s = (Returned Undefined, s)) \<and>
   (provider_set s \<and> ((\<exists>err. getBlockNumber e = Thrown err) \<or> (\<exists>err. getFeeData e = Thrown err)) \<longrightarrow>
      scanOpportunities e s = (Returned Null, s) \<and>
      opportunities (snd (scanOpportunities e s)) = opportunities s)"
  by (auto simp: scanOpportunities_def scan_try_def Let_def split: outcome.splits)

theorem scanOpportunities_never_throws_witness:
  "\<not> provider_set (after_main False False (\<lambda>n. 1 / 2) 0) \<and>
   scanOpportunities env_good (after_main False False (\<lambda>n. 1 / 2) 0)
     = (Returned Undefined, after_main False False (\<lambda>n. 1 / 2) 0) \<and>
   provider_set (after_main True True (\<lambda>n. 1 / 2) 0) \<and>
   getBlockNumber env_down = Thrown ProviderError \<and>
   scanOpportunities env_down (after_main True True (\<lambda>n. 1 / 2) 0)
     = (Returned Null, after_main True True (\<lambda>n. 1 / 2) 0)"
proof -
  have down: "getBlockNumber env_down = Thrown ProviderError"
    by (simp add: env_down_def env_good_def)
  show ?thesis
    using scanOpportunities_never_throws[of env_good "after_main False False (\<lambda>n. 1 / 2) 0"]
      scanOpportunities_never_throws[of env_down "after_main True True (\<lambda>n. 1 / 2) 0"] down
    by (auto simp: flags_after_main)
qed

subsection \<open>The loop and the commands\<close>

lemma exec_begin_frame:
  "engineRunning (snd (executeStrategy_begin t s)) = engineRunning s"
  "uhfRunning (snd (executeStrategy_begin t s)) = uhfRunning s"
  "loops (snd (executeStrategy_begin t s)) = loops s"
  by (simp_all add: executeStrategy_begin_def)

lemma exec_resume_frame:
  "engineRunning (snd (executeStrategy_resume e k st s)) = engineRunning s"
  "uhfRunning (snd (executeStrategy_resume e k st s)) = uhfRunning s"
  "loops (snd (executeStrategy_resume e k st s)) = loops s"
  by (auto simp: executeStrategy_resume_def exec_catch_def Let_def split: outcome.splits)

lemma after_scan_frame:
  "engineRunning (after_scan e i v s) = engineRunning s"
  "uhfRunning (after_scan e i v s) = uhfRunning s"
  "length (loops (after_scan e i v s)) = length (loops s)"
  by (auto simp: after_scan_def executeStrategy_begin_def Let_def split: scan_value.splits)

lemma after_scan_loops:
  "\<exists>p. loops (after_scan e i v s) = (loops s)[i := p] \<and> pc_rank p \<le> 2 \<and> p \<noteq> AwaitBlockNumber"
  by (auto simp: after_scan_def executeStrategy_begin_def Let_def split: scan_value.splits)

lemma exec_resume_frameD:
  assumes "executeStrategy_resume e k st s = (r, s')"
  shows "engineRunning s' = engineRunning s" "uhfRunning s' = uhfRunning s" "loops s' = loops s"
  using exec_resume_frame[of e k st s] assms by simp_all

lemma resume_frame:
  "engineRunning (resume e i s) = engineRunning s"
  "uhfRunning (resume e i s) = uhfRunning s"
  "length (loops (resume e i s)) = length (loops s)"
  by (auto simp: resume_def after_scan_frame Let_def dest: exec_resume_frameD
      split: pc.splits outcome.splits prod.splits)

lemma after_scan_shape:
  "\<exists>p. loops (after_scan e i v s) = (loops s)[i := p] \<and> pc_rank p \<le> 2"
  using after_scan_loops[of e i v s] by blast

lemma resume_shape:
  assumes "i < length (loops s)"
  shows "\<exists>p. loops (resume e i s) = (loops s)[i := p] \<and>
             (stopped s \<and> loops s ! i \<noteq> Exited \<longrightarrow> pc_rank p < pc_rank (loops s ! i)) \<and>
             (loops s ! i = Exited \<longrightarrow> p = Exited)"
proof (cases "loops s ! i")
  case AwaitBlockNumber
  show ?thesis
  proof (cases "getBlockNumber e")
    case (Returned bn)
    then have "loops (resume e i s) = (loops s)[i := AwaitFeeData bn]"
      using assms AwaitBlockNumber by (simp add: resume_def)
    then show ?thesis using AwaitBlockNumber
      by (intro exI[of _ "AwaitFeeData bn"]) simp
  next
    case (Thrown err)
    obtain p where "loops (after_scan e i Null s) = (loops s)[i := p]" "pc_rank p \<le> 2"
      using after_scan_shape by blast
    then show ?thesis using assms AwaitBlockNumber Thrown by (auto simp: resume_def)
  qed
next
  case (AwaitFeeData bn)
  show ?thesis
  proof (cases "getFeeData e")
    case (Returned gp)
    let ?s1 = "s\<lparr>opportunities := push_opportunity (make_opportunity e bn gp) (opportunities s)\<rparr>"
    obtain p where "loops (after_scan e i (Found (make_opportunity e bn gp)) ?s1) = (loops ?s1)[i := p]"
      "pc_rank p \<le> 2"
      using after_scan_shape by blast
    then show ?thesis using assms AwaitFeeData Returned by (auto simp: resume_def Let_def)
  next
    case (Thrown err)
    obtain p where "loops (after_scan e i Null s) = (loops s)[i := p]" "pc_rank p \<le> 2"
      using after_scan_shape by blast
    then show ?thesis using assms AwaitFeeData Thrown by (auto simp: resume_def)
  qed
next
  case (AwaitBalance k st)
  obtain r s' where r: "executeStrategy_resume e k st s = (r, s')"
    by (cases "executeStrategy_resume e k st s")
  have "loops s' = loops s" using exec_resume_frameD(3)[OF r] .
  then show ?thesis using assms AwaitBalance r
    by (cases r) (auto simp: resume_def)
next
  case (Sleeping d)
  then show ?thesis using assms
    by (auto simp: resume_def loop_entry_def stopped_def)
next
  case Exited
  then have "resume e i s = s" using assms by (simp add: resume_def)
  moreover have "(loops s)[i := Exited] = loops s"
    using Exited by (metis list_update_id)
  ultimately show ?thesis using Exited by auto
qed

lemma resume_out_of_range: "\<not> i < length (loops s) \<Longrightarrow> resume e i s = s"
  by (simp add: resume_def)

lemma resume_other:
  "j \<noteq> i \<Longrightarrow> loops (resume e i s) ! j = loops s ! j"
proof (cases "i < length (loops s)")
  case True
  assume "j \<noteq> i"
  then show ?thesis using resume_shape[OF True, of e] by auto
next
  case False
  then show ?thesis by (simp add: resume_out_of_range)
qed










lemma start_rejected:
  "engineRunning s \<Longrightarrow> api_start s = (Json 400 ''Engine already running'', s)"
  by (simp add: api_start_def)

lemma start_uhf_rejected:
  "uhfRunning s \<Longrightarrow> api_start_uhf s = (Json 400 ''UHF engine already running'', s)"
  by (simp add: api_start_uhf_def)

lemma loop_entry_running:
  "engineRunning s \<or> uhfRunning s \<Longrightarrow> loop_entry s \<noteq> Exited"
  by (simp add: loop_entry_def)

lemma after_scan_live: "i < length (loops s) \<Longrightarrow> loops (after_scan e i v s) ! i \<noteq> Exited"
  by (auto simp: after_scan_def executeStrategy_begin_def Let_def split: scan_value.splits)

lemma resume_live:
  assumes "engineRunning s \<or> uhfRunning s" "i < length (loops s)" "loops s ! i \<noteq> Exited"
  shows "loops (resume e i s) ! i \<noteq> Exited"
proof (cases "loops s ! i")
  case AwaitBlockNumber
  then show ?thesis using assms(2)
    by (cases "getBlockNumber e") (simp_all add: resume_def after_scan_live)
next
  case (AwaitFeeData bn)
  then show ?thesis using assms(2)
    by (cases "getFeeData e") (simp_all add: resume_def after_scan_live Let_def)
next
  case (AwaitBalance k st)
  obtain r s' where r: "executeStrategy_resume e k st s = (r, s')"
    by (cases "executeStrategy_resume e k st s")
  have "loops s' = loops s" using exec_resume_frameD(3)[OF r] .
  then show ?thesis using assms(2) AwaitBalance r
    by (cases r) (simp_all add: resume_def)
next
  case (Sleeping d)
  then show ?thesis using assms(1,2) loop_entry_running[of s]
    by (simp add: resume_def)
next
  case Exited
  then show ?thesis using assms(3) by simp
qed

lemma all_live_resume:
  assumes "engineRunning s \<or> uhfRunning s" "all_live s"
  shows "all_live (resume e i s)"
  unfolding all_live_def
proof (intro allI impI)
  fix j assume "j < length (loops (resume e i s))"
  then have j: "j < length (loops s)" by (simp add: resume_frame)
  show "loops (resume e i s) ! j \<noteq> Exited"
  proof (cases "j = i")
    case True
    then show ?thesis using resume_live[OF assms(1), of i e] j assms(2)
      by (simp add: all_live_def)
  next
    case False
    then show ?thesis using j assms(2) by (simp add: resume_other all_live_def)
  qed
qed

lemma live_loops_all_live:
  assumes "all_live s"
  shows "live_loops s = length (loops s)"
proof -
  have "\<forall>p\<in>set (loops s). p \<noteq> Exited"
    using assms by (auto simp: all_live_def in_set_conv_nth)
  then have "filter (\<lambda>p. p \<noteq> Exited) (loops s) = loops s"
    by (simp add: filter_id_conv)
  then show ?thesis by (simp add: live_loops_def)
qed

lemma resumes_keep_running:
  assumes "engineRunning s" "\<not> uhfRunning s" "all_live s"
  shows "engineRunning (run (map (\<lambda>(i, e). Resume i e) rs) s) \<and>
         \<not> uhfRunning (run (map (\<lambda>(i, e). Resume i e) rs) s) \<and>
         all_live (run (map (\<lambda>(i, e). Resume i e) rs) s) \<and>
         length (loops (run (map (\<lambda>(i, e). Resume i e) rs) s)) = length (loops s)"
  using assms
proof (induction rs arbitrary: s)
  case Nil
  then show ?case by simp
next
  case (Cons r rs)
  obtain i e where r: "r = (i, e)" by (cases r)
  have a: "engineRunning (resume e i s)" "\<not> uhfRunning (resume e i s)"
    using Cons.prems by (simp_all add: resume_frame)
  have b: "all_live (resume e i s)"
    using all_live_resume[of s e i] Cons.prems by simp
  show ?case using Cons.IH[OF a b] r by (simp add: resume_frame)
qed

lemma run_append: "run (evs @ evs') s = run evs' (run evs s)"
  by (induction evs arbitrary: s) simp_all


text \<open>
  Claim C1, at the commands start, startHighFrequency from start-up, with the first
  loop instance resumed any number of times in between (\<open>rs\<close>): both commands are
  accepted and each calls \<open>tradingLoop()\<close>, so that two loop instances are in their
  \<open>while\<close> at once. The claim's "at most one" fails here; \<open>POST /api/start-uhf\<close>
  tests \<open>uhfRunning\<close> only, while \<open>POST /api/start\<close> tests \<open>engineRunning\<close>, which
  either command sets: in the other order, startHighFrequency and then start, the
  second command is rejected, the state is unchanged and one instance runs.
\<close>

theorem start_then_start_uhf_two_loops:
  "fst (api_start (after_main p w rnd t0)) = Json 200 ''Main trading engine started'' \<and>
   fst (api_start_uhf (run (Start # map (\<lambda>(i, e). Resume i e) rs) (after_main p w rnd t0)))
     = Json 200 ''UHF engine started'' \<and>
   live_loops (run (Start # map (\<lambda>(i, e). Resume i e) rs @ [StartUhf]) (after_main p w rnd t0)) = 2 \<and>
   api_start (run [StartUhf] (after_main p w rnd t0))
     = (Json 400 ''Engine already running'', run [StartUhf] (after_main p w rnd t0)) \<and>
   live_loops (run [StartUhf, Start] (after_main p w rnd t0)) = 1"
proof -
  let ?s0 = "after_main p w rnd t0"
  let ?u = "snd (api_start_uhf ?s0)"
  have u: "engineRunning ?u" "length (loops ?u) = 1" "all_live ?u"
    by (simp_all add: api_start_uhf_def tradingLoop_def flags_after_main all_live_def
          loop_entry_def)
  have rej: "api_start ?u = (Json 400 ''Engine already running'', ?u)"
    using u(1) by (rule start_rejected)
  have one: "live_loops (run [StartUhf, Start] ?s0) = 1"
    using u(2) live_loops_all_live[OF u(3)] by (simp add: rej)
  let ?s1 = "step Start ?s0"
  let ?s2 = "run (map (\<lambda>(i, e). Resume i e) rs) ?s1"
  have s1: "engineRunning ?s1" "\<not> uhfRunning ?s1" "length (loops ?s1) = 1" "all_live ?s1"
    by (simp_all add: api_start_def tradingLoop_def flags_after_main all_live_def loop_entry_def)
  from resumes_keep_running[OF s1(1,2,4), of rs]
  have s2: "engineRunning ?s2" "\<not> uhfRunning ?s2" "all_live ?s2" "length (loops ?s2) = 1"
    using s1(3) by simp_all
  let ?s3 = "step StartUhf ?s2"
  have "length (loops ?s3) = 2" using s2
    by (simp add: api_start_uhf_def tradingLoop_def)
  moreover have "all_live ?s3" using s2
    by (auto simp: api_start_uhf_def tradingLoop_def all_live_def loop_entry_def nth_append)
  ultimately have "live_loops ?s3 = 2" by (simp add: live_loops_all_live)
  moreover have "fst (api_start_uhf ?s2) = Json 200 ''UHF engine started''"
    using s2 by (simp add: api_start_uhf_def)
  moreover have "fst (api_start ?s0) = Json 200 ''Main trading engine started''"
    by (simp add: api_start_def flags_after_main)
  ultimately show ?thesis using rej one by (simp add: run_append)
qed









subsection \<open>\<open>executeStrategy\<close>: the running average\<close>

lemmas trace_defs = api_start_def api_stop_def api_start_uhf_def tradingLoop_def loop_entry_def
  flags_after_main initial_stats_def resume_def after_scan_def executeStrategy_begin_def
  executeStrategy_resume_def exec_stats_update_def exec_catch_def cadence_def gas_threshold_def
  strategies_after_main env_good_def env_poor_def env_slow_def env_slower_def Let_def set_pc_def
  push_opportunity_def

text \<open>
  Claim C4 does not hold of the code. The divisor of the running average is
  \<open>stats.trades\<close>, which counts every call that has passed the readiness guard, the
  failed ones and the ones still awaiting their balance included, while a latency is
  folded in only by a call that succeeds. Three runs, in each of which every call
  starts at time 1010:

  \<^item> One loop instance; the first call fails its balance check (0.0005 ETH), the second
    succeeds at 1030. The one latency recorded is 20, and \<open>avgLatencyMs\<close> is
    \<open>(0 * (2 - 1) + 20) / 2 = 10\<close>.
  \<^item> One loop instance; the first call succeeds at 1030, the second fails its balance
    check, the third succeeds at 1060. \<open>avgLatencyMs\<close> is 20 after the first call
    and \<open>(20 * (3 - 1) + 50) / 3 = 30\<close> after the third. The mean of the two
    latencies recorded is 35; with the failed call counted as a latency of 0 the mean
    of three would be 70 / 3.
  \<^item> The two loop instances that \<open>POST /api/start\<close> followed by
    \<open>POST /api/start-uhf\<close> leaves running; no call fails. Both instances start a
    call, so that \<open>stats.trades\<close> is 2 before either call resumes, and both succeed
    at 1030. \<open>avgLatencyMs\<close> is \<open>(0 * (2 - 1) + 20) / 2 = 10\<close> after the first and
    \<open>(10 * (2 - 1) + 20) / 2 = 15\<close> after the second; the mean of the two latencies
    is 20.

  Every product, sum and quotient of these running averages is a small integer, which
  a JavaScript Number holds exactly.
\<close>

theorem avgLatency_not_mean:
  "loops (run [Start, Resume 0 env_good, Resume 0 env_good, Resume 0 env_poor,
          Resume 0 env_good, Resume 0 env_good, Resume 0 env_good]
        (after_main True True (\<lambda>n. 1 / 2) 0))
     = [AwaitBalance 90 1010] \<and>
   failedTrades (stats (run [Start, Resume 0 env_good, Resume 0 env_good, Resume 0 env_poor,
          Resume 0 env_good, Resume 0 env_good, Resume 0 env_good]
        (after_main True True (\<lambda>n. 1 / 2) 0))) = 1 \<and>
   (\<exists>r. fst (executeStrategy_resume env_slow 90 1010
      (run [Start, Resume 0 env_good, Resume 0 env_good, Resume 0 env_poor,
          Resume 0 env_good, Resume 0 env_good, Resume 0 env_good]
        (after_main True True (\<lambda>n. 1 / 2) 0))) = Returned r \<and> latencyMs r = 20) \<and>
   trades (stats (run [Start, Resume 0 env_good, Resume 0 env_good, Resume 0 env_poor,
          Resume 0 env_good, Resume 0 env_good, Resume 0 env_good,
          Resume 0 env_slow]
        (after_main True True (\<lambda>n. 1 / 2) 0))) = 2 \<and>
   successfulTrades (stats (run [Start, Resume 0 env_good, Resume 0 env_good, Resume 0 env_poor,
          Resume 0 env_good, Resume 0 env_good, Resume 0 env_good,
          Resume 0 env_slow]
        (after_main True True (\<lambda>n. 1 / 2) 0))) = 1 \<and>
   failedTrades (stats (run [Start, Resume 0 env_good, Resume 0 env_good, Resume 0 env_poor,
          Resume 0 env_good, Resume 0 env_good, Resume 0 env_good,
          Resume 0 env_slow]
        (after_main True True (\<lambda>n. 1 / 2) 0))) = 1 \<and>
   avgLatencyMs (stats (run [Start, Resume 0 env_good, Resume 0 env_good, Resume 0 env_poor,
          Resume 0 env_good, Resume 0 env_good, Resume 0 env_good,
          Resume 0 env_slow]
        (after_main True True (\<lambda>n. 1 / 2) 0))) = 10 \<and>
   mean [20] = 20 \<and>
   loops (run [Start, Resume 0 env_good, Resume 0 env_good]
        (after_main True True (\<lambda>n. 1 / 2) 0))
     = [AwaitBalance 90 1010] \<and>
   (\<exists>r. fst (executeStrategy_resume env_slow 90 1010
      (run [Start, Resume 0 env_good, Resume 0 env_good]
        (after_main True True (\<lambda>n. 1 / 2) 0))) = Returned r \<and> latencyMs r = 20) \<and>
   avgLatencyMs (stats (run [Start, Resume 0 env_good, Resume 0 env_good, Resume 0 env_slow]
        (after_main True True (\<lambda>n. 1 / 2) 0))) = 20 \<and>
   failedTrades (stats (run [Start, Resume 0 env_good, Resume 0 env_good, Resume 0 env_slow,
          Resume 0 env_good, Resume 0 env_good, Resume 0 env_good,
          Resume 0 env_poor]
        (after_main True True (\<lambda>n. 1 / 2) 0))) = 1 \<and>
   loops (run [Start, Resume 0 env_good, Resume 0 env_good, Resume 0 env_slow,
          Resume 0 env_good, Resume 0 env_good, Resume 0 env_good,
          Resume 0 env_poor, Resume 0 env_good, Resume 0 env_good,
          Resume 0 env_good]
        (after_main True True (\<lambda>n. 1 / 2) 0))
     = [AwaitBalance 90 1010] \<and>
   (\<exists>r. fst (executeStrategy_resume env_slower 90 1010
      (run [Start, Resume 0 env_good, Resume 0 env_good, Resume 0 env_slow,
          Resume 0 env_good, Resume 0 env_good, Resume 0 env_good,
          Resume 0 env_poor, Resume 0 env_good, Resume 0 env_good,
          Resume 0 env_good]
        (after_main True True (\<lambda>n. 1 / 2) 0))) = Returned r \<and> latencyMs r = 50) \<and>
   trades (stats (run [Start, Resume 0 env_good, Resume 0 env_good, Resume 0 env_slow,
          Resume 0 env_good, Resume 0 env_good, Resume 0 env_good,
          Resume 0 env_poor, Resume 0 env_good, Resume 0 env_good,
          Resume 0 env_good, Resume 0 env_slower]
        (after_main True True (\<lambda>n. 1 / 2) 0))) = 3 \<and>
   successfulTrades (stats (run [Start, Resume 0 env_good, Resume 0 env_good, Resume 0 env_slow,
          Resume 0 env_good, Resume 0 env_good, Resume 0 env_good,
          Resume 0 env_poor, Resume 0 env_good, Resume 0 env_good,
          Resume 0 env_good, Resume 0 env_slower]
        (after_main True True (\<lambda>n. 1 / 2) 0))) = 2 \<and>
   failedTrades (stats (run [Start, Resume 0 env_good, Resume 0 env_good, Resume 0 env_slow,
          Resume 0 env_good, Resume 0 env_good, Resume 0 env_good,
          Resume 0 env_poor, Resume 0 env_good, Resume 0 env_good,
          Resume 0 env_good, Resume 0 env_slower]
        (after_main True True (\<lambda>n. 1 / 2) 0))) = 1 \<and>
   avgLatencyMs (stats (run [Start, Resume 0 env_good, Resume 0 env_good, Resume 0 env_slow,
          Resume 0 env_good, Resume 0 env_good, Resume 0 env_good,
          Resume 0 env_poor, Resume 0 env_good, Resume 0 env_good,
          Resume 0 env_good, Resume 0 env_slower]
        (after_main True True (\<lambda>n. 1 / 2) 0))) = 30 \<and>
   mean [20, 50] = 35 \<and>
   mean [20, 0, 50] = 70 / 3 \<and>
   loops (run [Start, StartUhf, Resume 0 env_good, Resume 0 env_good, Resume 1 env_good,
          Resume 1 env_good]
        (after_main True True (\<lambda>n. 1 / 2) 0))
     = [AwaitBalance 90 1010, AwaitBalance 90 1010] \<and>
   trades (stats (run [Start, StartUhf, Resume 0 env_good, Resume 0 env_good, Resume 1 env_good,
          Resume 1 env_good]
        (after_main True True (\<lambda>n. 1 / 2) 0))) = 2 \<and>
   (\<exists>r. fst (executeStrategy_resume env_slow 90 1010
      (run [Start, StartUhf, Resume 0 env_good, Resume 0 env_good, Resume 1 env_good,
          Resume 1 env_good]
        (after_main True True (\<lambda>n. 1 / 2) 0))) = Returned r \<and> latencyMs r = 20) \<and>
   avgLatencyMs (stats (run [Start, StartUhf, Resume 0 env_good, Resume 0 env_good, Resume 1 env_good,
          Resume 1 env_good, Resume 0 env_slow]
        (after_main True True (\<lambda>n. 1 / 2) 0))) = 10 \<and>
   (\<exists>r. fst (executeStrategy_resume env_slow 90 1010
      (run [Start, StartUhf, Resume 0 env_good, Resume 0 env_good, Resume 1 env_good,
          Resume 1 env_good, Resume 0 env_slow]
        (after_main True True (\<lambda>n. 1 / 2) 0))) = Returned r \<and> latencyMs r = 20) \<and>
   trades (stats (run [Start, StartUhf, Resume 0 env_good, Resume 0 env_good, Resume 1 env_good,
          Resume 1 env_good, Resume 0 env_slow, Resume 1 env_slow]
        (after_main True True (\<lambda>n. 1 / 2) 0))) = 2 \<and>
   successfulTrades (stats (run [Start, StartUhf, Resume 0 env_good, Resume 0 env_good, Resume 1 env_good,
          Resume 1 env_good, Resume 0 env_slow, Resume 1 env_slow]
        (after_main True True (\<lambda>n. 1 / 2) 0))) = 2 \<and>
   failedTrades (stats (run [Start, StartUhf, Resume 0 env_good, Resume 0 env_good, Resume 1 env_good,
          Resume 1 env_good, Resume 0 env_slow, Resume 1 env_slow]
        (after_main True True (\<lambda>n. 1 / 2) 0))) = 0 \<and>
   avgLatencyMs (stats (run [Start, StartUhf, Resume 0 env_good, Resume 0 env_good, Resume 1 env_good,
          Resume 1 env_good, Resume 0 env_slow, Resume 1 env_slow]
        (after_main True True (\<lambda>n. 1 / 2) 0))) = 15 \<and>
   mean [20, 20] = 20"
  by (simp add: trace_defs mean_def)

subsection \<open>Rounding to binary64\<close>

lemma pow2_powi: "pow2 k = 2 powi k"
  by (simp add: pow2_def power_int_def inverse_eq_divide power_one_over)

lemma pow2_pos: "0 < pow2 k"
  by (simp add: pow2_powi)

lemma pow2_add: "pow2 (a + b) = pow2 a * pow2 b"
  by (simp add: pow2_powi power_int_add)

lemma pow2_nat: "pow2 (int n) = 2 ^ n"
  by (simp add: pow2_def)

lemma pow2_diff: "pow2 (a - b) = pow2 a / pow2 b"
  by (simp add: pow2_powi power_int_diff)

lemma pow2_mono: "a \<le> b \<Longrightarrow> pow2 a \<le> pow2 b"
  by (simp add: pow2_powi power_int_increasing)

lemma ilog2_bounds: "1 \<le> n \<Longrightarrow> 2 ^ ilog2 n \<le> n \<and> n < 2 ^ (ilog2 n + 1)"
proof (induction n rule: ilog2.induct)
  case (1 n)
  show ?case
  proof (cases "n < 2")
    case True
    with "1.prems" have "n = 1" by simp
    then show ?thesis by (simp add: ilog2.simps)
  next
    case False
    then have h: "1 \<le> n div 2" by simp
    from "1.IH"[OF False h]
    have a: "2 ^ ilog2 (n div 2) \<le> n div 2" and b: "n div 2 < 2 ^ (ilog2 (n div 2) + 1)"
      by simp_all
    have e: "ilog2 n = Suc (ilog2 (n div 2))" using False by (subst ilog2.simps) simp
    have "2 * (n div 2) \<le> n" by simp
    then have lo: "2 ^ ilog2 n \<le> n" using a e by simp
    have "n < 2 * (n div 2) + 2" by presburger
    moreover have "n div 2 + 1 \<le> 2 ^ (ilog2 (n div 2) + 1)" using b by simp
    ultimately have hi: "n < 2 ^ (ilog2 n + 1)" using e by simp
    show ?thesis using lo hi by simp
  qed
qed

lemma exponent_of_bounds:
  assumes "0 < q"
  shows "pow2 (exponent_of q) \<le> q \<and> q < pow2 (exponent_of q + 1)"
proof -
  obtain a b where ab: "quotient_of q = (a, b)" by (cases "quotient_of q")
  have b: "0 < b" using quotient_of_denom_pos[OF ab] .
  have q: "q = of_int a / of_int b" using quotient_of_div[OF ab] .
  have a: "0 < a" using assms b q by (simp add: zero_less_divide_iff)
  let ?k = "int (ilog2 a) - int (ilog2 b)"
  from ilog2_bounds[of a] a have a1: "(2::int) ^ ilog2 a \<le> a" and a2: "a < 2 ^ (ilog2 a + 1)"
    by simp_all
  from ilog2_bounds[of b] b have b1: "(2::int) ^ ilog2 b \<le> b" and b2: "b < 2 ^ (ilog2 b + 1)"
    by simp_all
  have ra1: "(2::rat) ^ ilog2 a \<le> of_int a" using a1 by (metis of_int_le_iff of_int_numeral of_int_power)
  have ra2: "of_int a < (2::rat) ^ (ilog2 a + 1)" using a2 by (metis of_int_less_iff of_int_numeral of_int_power)
  have rb1: "(2::rat) ^ ilog2 b \<le> of_int b" using b1 by (metis of_int_le_iff of_int_numeral of_int_power)
  have rb2: "of_int b < (2::rat) ^ (ilog2 b + 1)" using b2 by (metis of_int_less_iff of_int_numeral of_int_power)
  have bpos: "(0::rat) < of_int b" using b by simp
  have up: "q < pow2 (?k + 1)"
  proof -
    have "q < 2 ^ (ilog2 a + 1) / of_int b"
      unfolding q using ra2 bpos by (simp add: divide_strict_right_mono)
    also have "\<dots> \<le> 2 ^ (ilog2 a + 1) / 2 ^ ilog2 b"
      using rb1 by (simp add: frac_le)
    also have "\<dots> = pow2 (int (ilog2 a + 1)) / pow2 (int (ilog2 b))"
      by (simp only: pow2_nat)
    also have "\<dots> = pow2 (?k + 1)"
      by (simp add: pow2_diff[symmetric] algebra_simps)
    finally show ?thesis .
  qed
  have lo: "pow2 (?k - 1) \<le> q"
  proof -
    have "pow2 (?k - 1) = pow2 (int (ilog2 a)) / pow2 (int (ilog2 b + 1))"
      by (simp add: pow2_diff[symmetric] algebra_simps)
    also have "\<dots> = 2 ^ ilog2 a / 2 ^ (ilog2 b + 1)"
      by (simp only: pow2_nat)
    also have "\<dots> \<le> of_int a / 2 ^ (ilog2 b + 1)"
      using ra1 by (simp add: divide_right_mono)
    also have "\<dots> \<le> of_int a / of_int b"
      using rb2 bpos a by (intro divide_left_mono) (simp_all)
    finally show ?thesis unfolding q .
  qed
  show ?thesis
  proof (cases "pow2 ?k \<le> q")
    case True
    then have "exponent_of q = ?k" by (simp add: exponent_of_def ab)
    then show ?thesis using True up by simp
  next
    case False
    then have "exponent_of q = ?k - 1" by (simp add: exponent_of_def ab)
    then show ?thesis using False lo by simp
  qed
qed

lemma round_half_even_error: "\<bar>of_int (round_half_even x) - x\<bar> \<le> 1 / 2"
proof -
  have "of_int \<lfloor>x\<rfloor> \<le> x" "x < of_int \<lfloor>x\<rfloor> + 1" by linarith+
  then show ?thesis
    by (auto simp: round_half_even_def Let_def)
qed


lemma binary64_error: "\<bar>binary64 q - q\<bar> \<le> (\<bar>q\<bar> + pow2 (- 1022)) / 2 ^ 53"
proof (cases "q = 0")
  case True
  then show ?thesis using pow2_pos[of "- 1022"] by (simp add: binary64_def)
next
  case False
  define e where "e = max (exponent_of \<bar>q\<bar>) (- 1022)"
  define ulp where "ulp = pow2 (e - 52)"
  define m where "m = round_half_even (\<bar>q\<bar> / ulp)"
  have ulp: "0 < ulp" by (simp add: ulp_def pow2_pos)
  have b: "binary64 q = sgn q * of_int m * ulp"
    using False by (simp add: binary64_def Let_def e_def ulp_def m_def)
  have sq: "sgn q * \<bar>q\<bar> = q" by (rule mult_sgn_abs)
  have "binary64 q - q = sgn q * of_int m * ulp - sgn q * \<bar>q\<bar>"
    unfolding b sq ..
  then have "binary64 q - q = sgn q * (of_int m * ulp - \<bar>q\<bar>)"
    by (simp add: right_diff_distrib mult.assoc)
  then have "\<bar>binary64 q - q\<bar> = \<bar>of_int m * ulp - \<bar>q\<bar>\<bar>"
    using False by (simp add: abs_mult abs_sgn_eq)
  also have "of_int m * ulp - \<bar>q\<bar> = ulp * (of_int m - \<bar>q\<bar> / ulp)"
    using ulp by (simp add: algebra_simps)
  also have "\<bar>ulp * (of_int m - \<bar>q\<bar> / ulp)\<bar> = ulp * \<bar>of_int m - \<bar>q\<bar> / ulp\<bar>"
    using ulp by (simp add: abs_mult)
  also have "\<dots> \<le> ulp * (1 / 2)"
    using round_half_even_error[of "\<bar>q\<bar> / ulp"] ulp unfolding m_def
    by (intro mult_left_mono) simp_all
  also have "ulp * (1 / 2) = pow2 e / 2 ^ 53"
  proof -
    have "pow2 (e - 52) = pow2 e / pow2 52" by (rule pow2_diff)
    moreover have "pow2 52 = 2 ^ 52" using pow2_nat[of 52] by simp
    ultimately show ?thesis by (simp add: ulp_def)
  qed
  also have "\<dots> \<le> (\<bar>q\<bar> + pow2 (- 1022)) / 2 ^ 53"
  proof -
    have "pow2 e \<le> \<bar>q\<bar> + pow2 (- 1022)"
    proof (cases "- 1022 \<le> exponent_of \<bar>q\<bar>")
      case True
      then have "e = exponent_of \<bar>q\<bar>" by (simp add: e_def)
      then show ?thesis
        using exponent_of_bounds[of "\<bar>q\<bar>"] False pow2_pos[of "- 1022"] by simp
    next
      case False
      then have "e = - 1022" by (simp add: e_def)
      then show ?thesis by simp
    qed
    then show ?thesis by (simp add: divide_right_mono)
  qed
  finally show ?thesis .
qed

lemma tiny: "pow2 (- 1022) \<le> 1 / 10 ^ 18"
proof -
  have "pow2 (- 1022) \<le> pow2 (- 60)" by (rule pow2_mono) simp
  also have "\<dots> = 1 / 2 ^ 60" by (simp add: pow2_def)
  also have "\<dots> \<le> 1 / 10 ^ 18" by simp
  finally show ?thesis .
qed

lemma toFixed_int_error: "\<bar>of_int (toFixed_int f x) - x * 10 ^ f\<bar> \<le> 1 / 2"
proof -
  define y where "y = x * 10 ^ f"
  have neg: "x < 0 \<Longrightarrow> \<bar>of_int (- \<lfloor>- y + 1 / 2\<rfloor>) - y\<bar> \<le> 1 / 2"
  proof -
    define z where "z = \<lfloor>- y + 1 / 2\<rfloor>"
    have "of_int z \<le> - y + 1 / 2" "- y + 1 / 2 < of_int z + 1"
      unfolding z_def by linarith+
    then have "\<bar>- of_int z - y\<bar> \<le> 1 / 2" by linarith
    then show ?thesis by (simp add: z_def)
  qed
  have pos: "\<bar>of_int \<lfloor>y + 1 / 2\<rfloor> - y\<bar> \<le> 1 / 2"
  proof -
    define z where "z = \<lfloor>y + 1 / 2\<rfloor>"
    have "of_int z \<le> y + 1 / 2" "y + 1 / 2 < of_int z + 1"
      unfolding z_def by linarith+
    then have "\<bar>of_int z - y\<bar> \<le> 1 / 2" by linarith
    then show ?thesis by (simp add: z_def)
  qed
  show ?thesis
  proof (cases "x < 0")
    case True
    then show ?thesis using neg by (simp add: toFixed_int_def y_def)
  next
    case False
    then show ?thesis using pos by (simp add: toFixed_int_def y_def)
  qed
qed

lemma cent: "binary64 (1 / 100) = 5764607523034235 / 2 ^ 59"
  by code_simp

lemma withdraw_wei_error:
  assumes "0 \<le> b"
  shows "\<bar>of_int (toFixed_int 18 (withdrawAmount b)) - (of_int b - 10 ^ 16)\<bar>
           \<le> of_int b / 2 ^ 51 + (2 :: rat)"
proof -
  define x :: rat where "x = of_int b / 10 ^ 18"
  define t :: rat where "t = pow2 (- 1022)"
  define x1 where "x1 = binary64 x"
  define c where "c = binary64 (1 / 100)"
  define w where "w = binary64 (x1 - c)"
  define n :: rat where "n = of_int (toFixed_int 18 w)"
  have x0: "0 \<le> x" using assms by (simp add: x_def)
  have t0: "0 < t" "t \<le> 1 / 10 ^ 18" using pow2_pos tiny by (simp_all add: t_def)
  have e1: "\<bar>x1 - x\<bar> \<le> (x + t) / 2 ^ 53"
    using binary64_error[of x] x0 by (simp add: x1_def t_def)
  have e2: "\<bar>w - (x1 - c)\<bar> \<le> (\<bar>x1 - c\<bar> + t) / 2 ^ 53"
    using binary64_error[of "x1 - c"] by (simp add: w_def t_def)
  have e3: "\<bar>n - w * 10 ^ 18\<bar> \<le> 1 / 2"
    using toFixed_int_error[of 18 w] by (simp add: n_def)
  have c: "c = 5764607523034235 / 2 ^ 59" by (simp add: c_def cent)
  have c1: "0 \<le> c" "c \<le> 1 / 99" "\<bar>c - 1 / 100\<bar> \<le> 1 / (4 * 10 ^ 18)"
    unfolding c by simp_all
  have d: "\<bar>x1 - c\<bar> \<le> x + (x + t) / 2 ^ 53 + c"
    using e1 c1(1) x0 by linarith
  define u :: rat where "u = 1 / 2 ^ 53"
  define K :: rat where "K = 10 ^ 18"
  define A where "A = \<bar>x1 - c\<bar>"
  define E1 where "E1 = \<bar>x1 - x\<bar>"
  define E2 where "E2 = \<bar>w - (x1 - c)\<bar>"
  define E3 where "E3 = \<bar>n - w * K\<bar>"
  define E4 where "E4 = \<bar>c - 1 / 100\<bar>"
  define W where "W = \<bar>w - (x - 1 / 100)\<bar>"
  define XU where "XU = x * u"
  define TU where "TU = t * u"
  define CU where "CU = c * u"
  define XUU where "XUU = XU * u"
  define TUU where "TUU = TU * u"
  have u: "0 < u" "u \<le> 1 / 10 ^ 15" "u \<le> 1" by (simp_all add: u_def)
  have K: "0 \<le> K" by (simp add: K_def)
  have f1: "E1 \<le> XU + TU"
    using e1 by (simp add: E1_def u_def XU_def TU_def algebra_simps add_divide_distrib)
  have f2: "E2 \<le> (A + t) * u" using e2 by (simp add: E2_def A_def u_def)
  have f3: "E3 \<le> 1 / 2" using e3 by (simp add: E3_def K_def)
  have f4: "E4 \<le> 1 / (4 * 10 ^ 18)" using c1(3) by (simp add: E4_def)
  have fA: "A \<le> x + (XU + TU) + c"
    using d by (simp add: A_def u_def XU_def TU_def algebra_simps add_divide_distrib)
  have g2: "(A + t) * u \<le> (x + (XU + TU) + c + t) * u"
    using fA u(1) by (intro mult_right_mono) simp_all
  have g3: "(x + (XU + TU) + c + t) * u = XU + XUU + TUU + CU + TU"
    by (simp add: XU_def TU_def CU_def XUU_def TUU_def algebra_simps)
  have fW: "W \<le> E2 + E1 + E4" unfolding W_def E1_def E2_def E4_def by linarith
  have XU0: "0 \<le> XU" using x0 u(1) by (simp add: XU_def)
  have TU0: "0 \<le> TU" using t0 u(1) by (simp add: TU_def)
  have xuu: "XUU \<le> XU / 10 ^ 15"
  proof -
    have "XU * u \<le> XU * (1 / 10 ^ 15)" using u(2) XU0 by (rule mult_left_mono)
    then show ?thesis by (simp add: XUU_def)
  qed
  have tuu: "TUU \<le> TU"
  proof -
    have "TU * u \<le> TU * 1" using u(3) TU0 by (rule mult_left_mono)
    then show ?thesis by (simp add: TUU_def)
  qed
  have tu: "TU * K \<le> u"
  proof -
    have "t * K \<le> 1" using t0(2) by (simp add: K_def)
    then have "(t * K) * u \<le> 1 * u" using u(1) by (intro mult_right_mono) simp_all
    then show ?thesis by (simp add: TU_def algebra_simps)
  qed
  have cu: "CU * K \<le> 6 / 5"
  proof -
    have "CU * K = 5764607523034235 / 2 ^ 59 * (1 / 2 ^ 53) * 10 ^ 18"
      by (simp add: CU_def c u_def K_def)
    also have "\<dots> \<le> 6 / 5" by simp
    finally show ?thesis .
  qed
  have Wb: "W \<le> 2 * XU + XU / 10 ^ 15 + CU + 3 * TU + 1 / (4 * 10 ^ 18)"
    using fW f1 f2 f4 g2 g3 xuu tuu by linarith
  have "W * K \<le> (2 * XU + XU / 10 ^ 15 + CU + 3 * TU + 1 / (4 * 10 ^ 18)) * K"
    using Wb K by (rule mult_right_mono)
  also have "\<dots> = (2 + 1 / 10 ^ 15) * (XU * K) + CU * K + 3 * (TU * K) + 1 / 4"
    by (simp add: K_def algebra_simps)
  finally have W18: "W * K \<le> (2 + 1 / 10 ^ 15) * (XU * K) + CU * K + 3 * (TU * K) + 1 / 4" .
  have tri: "\<bar>n - (x - 1 / 100) * K\<bar> \<le> E3 + W * K"
  proof -
    have "n - (x - 1 / 100) * K = (n - w * K) + (w - (x - 1 / 100)) * K"
      by (simp add: algebra_simps)
    then have "\<bar>n - (x - 1 / 100) * K\<bar> \<le> \<bar>n - w * K\<bar> + \<bar>(w - (x - 1 / 100)) * K\<bar>"
      by (simp only: abs_triangle_ineq)
    also have "\<bar>(w - (x - 1 / 100)) * K\<bar> = \<bar>w - (x - 1 / 100)\<bar> * K"
      using abs_mult_pos[OF K, of "w - (x - 1 / 100)"] by simp
    finally show ?thesis by (simp add: E3_def W_def)
  qed
  have XK: "XU * K = of_int b / 2 ^ 53" by (simp add: XU_def x_def K_def u_def)
  have b0: "(0::rat) \<le> of_int b / 2 ^ 53" using assms by simp
  have xb: "(2 + 1 / 10 ^ 15) * (XU * K) \<le> 4 * (of_int b / 2 ^ 53)"
    unfolding XK using b0 by (intro mult_right_mono) simp_all
  have r: "3 * (TU * K) \<le> 1 / 20"
  proof -
    have "TU * K \<le> 1 / 10 ^ 15" using tu u(2) by (rule order_trans)
    then show ?thesis by simp
  qed
  define P where "P = (2 + 1 / 10 ^ 15) * (XU * K)"
  define Q where "Q = CU * K"
  define R where "R = 3 * (TU * K)"
  define G where "G = \<bar>n - (x - 1 / 100) * K\<bar>"
  define B :: rat where "B = 4 * (of_int b / 2 ^ 53)"
  define WK where "WK = W * K"
  have "G \<le> E3 + WK" using tri by (simp add: G_def WK_def)
  moreover have "WK \<le> P + Q + R + 1 / 4" using W18 by (simp add: WK_def P_def Q_def R_def)
  moreover have "P \<le> B" using xb by (simp add: P_def B_def)
  moreover have "Q \<le> 6 / 5" using cu by (simp add: Q_def)
  moreover have "R \<le> 1 / 20" using r by (simp add: R_def)
  ultimately have "G \<le> B + 2" using f3 by linarith
  then have "\<bar>n - (x - 1 / 100) * K\<bar> \<le> 4 * (of_int b / 2 ^ 53) + 2"
    by (simp add: G_def B_def)
  moreover have "(x - 1 / 100) * K = of_int b - 10 ^ 16"
    by (simp add: x_def K_def algebra_simps)
  moreover have "4 * (of_int b / 2 ^ 53) = (of_int b :: rat) / 2 ^ 51" by simp
  ultimately show ?thesis
    by (simp add: n_def w_def x1_def c_def withdrawAmount_def x_def)
qed

text \<open>The model agrees with binary64 on the values of the handler's examples.\<close>

lemma amount_one: "withdrawAmount one_ether = 8917127262193582 / 2 ^ 53"
  by code_simp

lemma amount_one_range: "0 < withdrawAmount one_ether" "withdrawAmount one_ether < 10 ^ 21"
  by code_simp+

lemma wei_one: "toFixed_int 18 (withdrawAmount one_ether) = 989999999999999991"
  by code_simp

lemma six_one: "toFixed 6 (withdrawAmount one_ether) = 99 / 100"
  by code_simp

lemma amount_small: "withdrawAmount small_balance \<le> 0"
  by code_simp

subsection \<open>\<open>POST /api/withdraw-all\<close>\<close>

lemma withdraw_one:
  "api_withdraw_all None (wenv one_ether) (after_main True True (\<lambda>n. 1 / 2) 0)
   = (Withdrawn (Some ''0xabc'') (99 / 100) BACKEND_WALLET,
      [\<lparr>tx_to = BACKEND_WALLET, tx_value = 989999999999999991, tx_gasLimit = 21000\<rparr>])"
  using amount_one_range
  by (simp add: api_withdraw_all_def flags_after_main wenv_def Let_def wei_one six_one
        PROFIT_WALLET_def)

text \<open>
  Claim C2, as the code has it. Without a wallet or provider the handler answers 503
  and sends nothing. Otherwise it computes the amount in binary64 as the balance in
  ETH minus 0.01. If that is at most 0, as for a balance of 0.005, it answers 400
  \<open>Insufficient balance to withdraw\<close> and sends nothing. If it is positive (and below
  \<open>10^21\<close>) it hands exactly one transaction to the wallet, to the configured profit
  address with gas limit 21000, whose value is the amount printed with 18 decimals;
  that value differs from the balance minus \<open>10^16\<close> wei by at most
  \<open>balance / 2^51 + 2\<close> wei, and for a balance of 1 ETH it is 989999999999999991 wei.
  When the transaction is sent and confirmed the answer carries the receipt's hash,
  the amount printed with six decimals (0.990000 for 1 ETH) and the address.
\<close>

theorem withdraw_all_amount:
  "(\<not> wallet_set s \<or> \<not> provider_set s \<longrightarrow>
      api_withdraw_all cfg w s = (Refused 503 ''Wallet not initialized'', [])) \<and>
   (wallet_set s \<and> provider_set s \<and> w_getBalance w = Returned b \<and> withdrawAmount b \<le> 0 \<longrightarrow>
      api_withdraw_all cfg w s = (Refused 400 ''Insufficient balance to withdraw'', [])) \<and>
   (wallet_set s \<and> provider_set s \<and> w_getBalance w = Returned b \<and>
    0 < withdrawAmount b \<and> withdrawAmount b < 10 ^ 21 \<longrightarrow>
      snd (api_withdraw_all cfg w s)
        = [\<lparr>tx_to = PROFIT_WALLET cfg, tx_value = toFixed_int 18 (withdrawAmount b),
            tx_gasLimit = 21000\<rparr>] \<and>
      (\<forall>h r. sendTransaction w = Returned h \<and> tx_wait w = Returned r \<longrightarrow>
         fst (api_withdraw_all cfg w s)
           = Withdrawn r (toFixed 6 (withdrawAmount b)) (PROFIT_WALLET cfg))) \<and>
   (0 \<le> b \<longrightarrow>
      \<bar>of_int (toFixed_int 18 (withdrawAmount b)) - (of_int b - 10 ^ 16)\<bar>
        \<le> of_int b / 2 ^ 51 + (2 :: rat)) \<and>
   withdrawAmount small_balance \<le> 0 \<and>
   toFixed_int 18 (withdrawAmount one_ether) = 989999999999999991 \<and>
   toFixed 6 (withdrawAmount one_ether) = 99 / 100"
proof (intro conjI impI allI)
  show "api_withdraw_all cfg w s = (Refused 503 ''Wallet not initialized'', [])"
    if "\<not> wallet_set s \<or> \<not> provider_set s"
    using that by (auto simp: api_withdraw_all_def)
  show "api_withdraw_all cfg w s = (Refused 400 ''Insufficient balance to withdraw'', [])"
    if "wallet_set s \<and> provider_set s \<and> w_getBalance w = Returned b \<and> withdrawAmount b \<le> 0"
    using that by (simp add: api_withdraw_all_def Let_def)
  show "snd (api_withdraw_all cfg w s)
        = [\<lparr>tx_to = PROFIT_WALLET cfg, tx_value = toFixed_int 18 (withdrawAmount b),
            tx_gasLimit = 21000\<rparr>]"
    if "wallet_set s \<and> provider_set s \<and> w_getBalance w = Returned b \<and>
        0 < withdrawAmount b \<and> withdrawAmount b < 10 ^ 21"
    using that by (simp add: api_withdraw_all_def Let_def split: outcome.splits)
  show "fst (api_withdraw_all cfg w s)
           = Withdrawn r (toFixed 6 (withdrawAmount b)) (PROFIT_WALLET cfg)"
    if "wallet_set s \<and> provider_set s \<and> w_getBalance w = Returned b \<and>
        0 < withdrawAmount b \<and> withdrawAmount b < 10 ^ 21"
      and "sendTransaction w = Returned h \<and> tx_wait w = Returned r" for h r
    using that by (simp add: api_withdraw_all_def Let_def)
  show "\<bar>of_int (toFixed_int 18 (withdrawAmount b)) - (of_int b - 10 ^ 16)\<bar>
        \<le> of_int b / 2 ^ 51 + (2 :: rat)"
    if "0 \<le> b"
    using that by (rule withdraw_wei_error)
  show "withdrawAmount small_balance \<le> 0" by (rule amount_small)
  show "toFixed_int 18 (withdrawAmount one_ether) = 989999999999999991" by (rule wei_one)
  show "toFixed 6 (withdrawAmount one_ether) = 99 / 100" by (rule six_one)
qed

text \<open>
  The theorem at the two balances of the claim, with a wallet and a provider, and at a
  state without a wallet.
\<close>

theorem withdraw_all_amount_witness:
  "\<not> wallet_set (after_main True False (\<lambda>n. 1 / 2) 0) \<and>
   api_withdraw_all None (wenv one_ether) (after_main True False (\<lambda>n. 1 / 2) 0)
     = (Refused 503 ''Wallet not initialized'', []) \<and>
   wallet_set (after_main True True (\<lambda>n. 1 / 2) 0) \<and>
   provider_set (after_main True True (\<lambda>n. 1 / 2) 0) \<and>
   withdrawAmount small_balance \<le> 0 \<and>
   api_withdraw_all None (wenv small_balance) (after_main True True (\<lambda>n. 1 / 2) 0)
     = (Refused 400 ''Insufficient balance to withdraw'', []) \<and>
   0 < withdrawAmount one_ether \<and> withdrawAmount one_ether < 10 ^ 21 \<and>
   snd (api_withdraw_all None (wenv one_ether) (after_main True True (\<lambda>n. 1 / 2) 0))
     = [\<lparr>tx_to = BACKEND_WALLET, tx_value = 989999999999999991, tx_gasLimit = 21000\<rparr>] \<and>
   fst (api_withdraw_all None (wenv one_ether) (after_main True True (\<lambda>n. 1 / 2) 0))
     = Withdrawn (Some ''0xabc'') (99 / 100) BACKEND_WALLET \<and>
   \<bar>of_int (toFixed_int 18 (withdrawAmount one_ether)) - (of_int one_ether - 10 ^ 16)\<bar>
     \<le> of_int one_ether / 2 ^ 51 + (2 :: rat)"
proof -
  let ?ro = "after_main True False (\<lambda>n. 1 / 2) 0"
  let ?rw = "after_main True True (\<lambda>n. 1 / 2) 0"
  have b: "w_getBalance (wenv one_ether) = Returned one_ether"
    "w_getBalance (wenv small_balance) = Returned small_balance"
    "sendTransaction (wenv one_ether) = Returned ''0xabc''"
    "tx_wait (wenv one_ether) = Returned (Some ''0xabc'')"
    by (simp_all add: wenv_def)
  have p: "(0::int) \<le> one_ether" by (simp add: one_ether_def)
  show ?thesis
    using withdraw_all_amount[of ?ro None "wenv one_ether" one_ether]
      withdraw_all_amount[of ?rw None "wenv small_balance" small_balance]
      withdraw_all_amount[of ?rw None "wenv one_ether" one_ether]
      b p amount_one_range
    by (simp add: flags_after_main PROFIT_WALLET_def)
qed

text \<open>
  Against claim C2 as stated: with a balance of 1 ETH the transaction's value is
  989999999999999991 wei, which is not the 990000000000000000 wei of
  \<open>balance - 0.01\<close>: the binary64 number nearest to 0.99 lies below it.
\<close>

theorem withdraw_all_exact_counterexample:
  "snd (api_withdraw_all None (wenv one_ether) (after_main True True (\<lambda>n. 1 / 2) 0))
     = [\<lparr>tx_to = BACKEND_WALLET, tx_value = 989999999999999991, tx_gasLimit = 21000\<rparr>] \<and>
   one_ether - 10 ^ 16 = 990000000000000000 \<and>
   (989999999999999991 :: int) \<noteq> one_ether - 10 ^ 16"
proof -
  have "one_ether - 10 ^ 16 = 990000000000000000" by (simp add: one_ether_def)
  then show ?thesis by (simp add: withdraw_one)
qed

subsection \<open>\<open>GET /api/flashloans\<close>\<close>

lemma sum_list_range:
  assumes "\<forall>x\<in>set xs. 0 \<le> x \<and> x \<le> (1::rat)"
  shows "0 \<le> sum_list xs \<and> sum_list xs \<le> of_nat (length xs)"
  using assms
proof (induction xs)
  case Nil
  then show ?case by simp
next
  case (Cons a xs)
  then have "0 \<le> a" "a \<le> 1" "0 \<le> sum_list xs" "sum_list xs \<le> of_nat (length xs)"
    by simp_all
  then show ?case by simp
qed

text \<open>
  The sum as \<open>reduce\<close> computes it: each of the at most 50 additions is off by at
  most \<open>10^-14\<close>.
\<close>

lemma float_sum_error:
  assumes "\<forall>x\<in>set xs. 0 \<le> x \<and> x \<le> 1" "length xs \<le> 50"
  shows "\<bar>foldl (\<lambda>sum x. binary64 (sum + binary64 x)) 0 xs - sum_list xs\<bar>
           \<le> of_nat (length xs) / 10 ^ 14"
  using assms
proof (induction xs rule: rev_induct)
  case Nil
  then show ?case by simp
next
  case (snoc x xs)
  define u :: rat where "u = 1 / 2 ^ 53"
  define t :: rat where "t = pow2 (- 1022)"
  define k :: rat where "k = of_nat (length xs)"
  define S where "S = foldl (\<lambda>sum x. binary64 (sum + binary64 x)) 0 xs"
  define X where "X = sum_list xs"
  define y where "y = binary64 x"
  define S' where "S' = binary64 (S + y)"
  define c :: rat where "c = 1 / 10 ^ 14"
  define kc where "kc = k * c"
  have u: "0 < u" "56 * u \<le> c" "2 * u \<le> 1" by (simp_all add: u_def c_def)
  have t: "0 < t" "t \<le> 1" using pow2_pos tiny by (simp_all add: t_def)
  have k: "0 \<le> k" "k \<le> 49" using snoc.prems(2) by (simp_all add: k_def)
  have x: "0 \<le> x" "x \<le> 1" using snoc.prems(1) by simp_all
  have xs: "\<forall>x\<in>set xs. 0 \<le> x \<and> x \<le> 1" "length xs \<le> 50"
    using snoc.prems by simp_all
  have X: "0 \<le> X" "X \<le> k"
    using sum_list_range[OF xs(1)] by (simp_all add: X_def k_def)
  have ih: "\<bar>S - X\<bar> \<le> kc"
    using snoc.IH[OF xs] by (simp add: S_def X_def k_def c_def kc_def)
  have kc: "kc \<le> 1"
  proof -
    have "k * c \<le> 49 * c" using k(2) by (intro mult_right_mono) (simp_all add: c_def)
    then show ?thesis by (simp add: c_def kc_def)
  qed
  have ey: "\<bar>y - x\<bar> \<le> (\<bar>x\<bar> + t) * u"
    using binary64_error[of x] by (simp add: y_def t_def u_def)
  have "\<bar>x\<bar> + t \<le> 2" using x t by simp
  then have xu: "(\<bar>x\<bar> + t) * u \<le> 2 * u" using u(1) by (intro mult_right_mono) simp_all
  have ey': "\<bar>y - x\<bar> \<le> 2 * u" using ey xu by linarith
  have z: "\<bar>S + y\<bar> + t \<le> 54"
    using ih kc X k ey' u(3) x t by linarith
  have es: "\<bar>S' - (S + y)\<bar> \<le> (\<bar>S + y\<bar> + t) * u"
    using binary64_error[of "S + y"] by (simp add: S'_def t_def u_def)
  have zu: "(\<bar>S + y\<bar> + t) * u \<le> 54 * u"
    using z u(1) by (intro mult_right_mono) simp_all
  have "\<bar>S' - (X + x)\<bar> \<le> \<bar>S' - (S + y)\<bar> + \<bar>S - X\<bar> + \<bar>y - x\<bar>" by linarith
  then have "\<bar>S' - (X + x)\<bar> \<le> kc + c" using es zu ih ey' u by linarith
  then show ?case
    by (simp add: S'_def S_def y_def X_def k_def c_def kc_def algebra_simps add_divide_distrib)
qed

lemma toFixed_error: "\<bar>toFixed f x - x\<bar> \<le> 1 / (2 * 10 ^ f)"
proof -
  define p :: rat where "p = 10 ^ f"
  define d where "d = \<bar>of_int (toFixed_int f x) - x * p\<bar>"
  have p: "0 < p" by (simp add: p_def)
  have "d \<le> 1 / 2"
    using toFixed_int_error[of f x] by (simp add: p_def d_def)
  then have "d / p \<le> (1 / 2) / p"
    using p by (intro divide_right_mono) simp_all
  moreover have "d / p = \<bar>of_int (toFixed_int f x) / p - x\<bar>"
  proof -
    have "d / p = \<bar>(of_int (toFixed_int f x) - x * p) / p\<bar>"
      using p by (simp add: d_def)
    also have "(of_int (toFixed_int f x) - x * p) / p = of_int (toFixed_int f x) / p - x"
      using p by (simp add: diff_divide_distrib)
    finally show ?thesis .
  qed
  ultimately show ?thesis by (simp add: toFixed_def p_def)
qed

text \<open>The average as the handler computes and prints it, against the mean.\<close>

lemma float_avg_error:
  assumes "xs \<noteq> []" "\<forall>x\<in>set xs. 0 \<le> x \<and> x \<le> 1" "length xs \<le> 50"
  shows "\<bar>toFixed 6 (binary64 (foldl (\<lambda>sum x. binary64 (sum + binary64 x)) 0 xs
                                   / of_nat (length xs)))
           - sum_list xs / of_nat (length xs)\<bar> \<le> 1 / 2000000 + 1 / 10 ^ 13"
proof -
  define u :: rat where "u = 1 / 2 ^ 53"
  define t :: rat where "t = pow2 (- 1022)"
  define n :: rat where "n = of_nat (length xs)"
  define S where "S = foldl (\<lambda>sum x. binary64 (sum + binary64 x)) 0 xs"
  define X where "X = sum_list xs"
  define a where "a = S / n"
  define m where "m = X / n"
  define q where "q = binary64 a"
  define c :: rat where "c = 1 / 10 ^ 14"
  have n: "1 \<le> n"
    using assms(1) by (cases xs) (simp_all add: n_def)
  have u: "0 < u" "3 * u \<le> c" by (simp_all add: u_def c_def)
  have t: "0 < t" "t \<le> 1" using pow2_pos tiny by (simp_all add: t_def)
  have X: "0 \<le> X" "X \<le> n"
    using sum_list_range[OF assms(2)] by (simp_all add: X_def n_def)
  have m: "0 \<le> m" "m \<le> 1"
    using X n by (simp_all add: m_def)
  have "\<bar>S - X\<bar> \<le> n * c"
    using float_sum_error[OF assms(2,3)] by (simp add: S_def X_def n_def c_def)
  then have "\<bar>S - X\<bar> / n \<le> n * c / n"
    using n by (intro divide_right_mono) simp_all
  moreover have "\<bar>S - X\<bar> / n = \<bar>a - m\<bar>"
  proof -
    have "\<bar>S - X\<bar> / n = \<bar>(S - X) / n\<bar>" using n by simp
    then show ?thesis by (simp add: a_def m_def diff_divide_distrib)
  qed
  ultimately have am: "\<bar>a - m\<bar> \<le> c" using n by simp
  have c1: "c \<le> 1" by (simp add: c_def)
  have "\<bar>a\<bar> + t \<le> 3" using am m t c1 by linarith
  then have "(\<bar>a\<bar> + t) * u \<le> 3 * u" using u(1) by (intro mult_right_mono) simp_all
  moreover have "\<bar>q - a\<bar> \<le> (\<bar>a\<bar> + t) * u"
    using binary64_error[of a] by (simp add: q_def t_def u_def)
  ultimately have qa: "\<bar>q - a\<bar> \<le> c" using u(2) by linarith
  have fq: "\<bar>toFixed 6 q - q\<bar> \<le> 1 / 2000000"
    using toFixed_error[of 6 q] by simp
  have "\<bar>toFixed 6 q - m\<bar> \<le> 1 / 2000000 + 2 * c"
    using fq qa am by linarith
  moreover have "2 * c \<le> 1 / 10 ^ 13" by (simp add: c_def)
  ultimately have "\<bar>toFixed 6 q - m\<bar> \<le> 1 / 2000000 + 1 / 10 ^ 13" by linarith
  then show ?thesis by (simp add: q_def a_def m_def S_def X_def n_def)
qed

lemma foldl_profit:
  "foldl (\<lambda>sum opp. binary64 (sum + binary64 (profitETH opp))) a ops
     = foldl (\<lambda>sum x. binary64 (sum + binary64 x)) a (map profitETH ops)"
  by (induction ops arbitrary: a) simp_all

lemma scans_tie:
  "opportunities (scans [env_5000, env_5001] (after_main True True (\<lambda>n. 1 / 2) 0)) =
     [make_opportunity env_5000 19000000 (Some 20000000000),
      make_opportunity env_5001 19000001 (Some 20000000000)]"
  by (simp add: scanOpportunities_cases flags_after_main scan_found_def env_good_def
        env_later_def env_5000_def env_5001_def push_opportunity_def)

lemma profit_tie:
  "profitETH (make_opportunity env_5000 bn gp) = 1 / 200"
  "profitETH (make_opportunity env_5001 bn gp) = 5001 / 1000000"
  by (simp add: make_opportunity_def env_5000_def env_5001_def env_later_def env_good_def; code_simp)+

lemma float_avg_tie:
  "toFixed 6 (binary64 (binary64 (binary64 (0 + binary64 (1 / 200)) + binary64 (5001 / 1000000)) / 2))
     = 1 / 200"
  by code_simp

text \<open>
  Claim C8, as the code has it. The field \<open>best\<close> is the entry at the front of the
  buffer, which is the oldest one buffered (or \<open>null\<close> when the buffer is empty): after
  any run of scans it is the first of the last 50 opportunities found. The reported
  average is computed in binary64: the profit estimates, each read as the nearest
  Number, are added from the front of the buffer with a rounding at every addition,
  the sum is divided by the length, and the quotient is printed with six decimals (0
  on the empty buffer). For a buffer of at most 50 estimates between 0 and 1
  (\<open>scanOpportunities\<close> writes estimates from 0.001 to 0.011) the figure printed is
  within \<open>0.0000005 + 10^-13\<close> of the arithmetic mean of the estimates: half a unit
  of the sixth decimal from the printing, the rest from the roundings.
\<close>

theorem api_flashloans_best_avg:
  "best (api_flashloans s)
     = (if opportunities s = [] then None else Some (hd (opportunities s))) \<and>
   best (api_flashloans (scans es (after_main True w rnd t0)))
     = (case newest 50 (List.map_filter scan_found es) of [] \<Rightarrow> None | opp # _ \<Rightarrow> Some opp) \<and>
   avgProfitETH (api_flashloans s)
     = (if opportunities s = [] then 0
        else toFixed 6
               (binary64 (foldl (\<lambda>sum x. binary64 (sum + binary64 x)) 0
                            (map profitETH (opportunities s))
                          / of_nat (length (opportunities s))))) \<and>
   (opportunities s \<noteq> [] \<and> length (opportunities s) \<le> 50 \<and>
    (\<forall>opp\<in>set (opportunities s). 0 \<le> profitETH opp \<and> profitETH opp \<le> 1) \<longrightarrow>
      \<bar>avgProfitETH (api_flashloans s)
         - sum_list (map profitETH (opportunities s)) / of_nat (length (opportunities s))\<bar>
        \<le> 1 / 2000000 + 1 / 10 ^ 13)"
proof -
  have front: "best (api_flashloans s)
     = (if opportunities s = [] then None else Some (hd (opportunities s)))"
    by (simp add: api_flashloans_def Let_def split: list.splits)
  have oldest: "best (api_flashloans (scans es (after_main True w rnd t0)))
     = (case newest 50 (List.map_filter scan_found es) of [] \<Rightarrow> None | opp # _ \<Rightarrow> Some opp)"
    by (simp add: api_flashloans_def Let_def scans_after_main)
  have avg: "avgProfitETH (api_flashloans s)
     = (if opportunities s = [] then 0
        else toFixed 6
               (binary64 (foldl (\<lambda>sum x. binary64 (sum + binary64 x)) 0
                            (map profitETH (opportunities s))
                          / of_nat (length (opportunities s)))))"
    by (simp add: api_flashloans_def Let_def foldl_profit)
  have near: "\<bar>avgProfitETH (api_flashloans s)
         - sum_list (map profitETH (opportunities s)) / of_nat (length (opportunities s))\<bar>
        \<le> 1 / 2000000 + 1 / 10 ^ 13"
    if "opportunities s \<noteq> []" "length (opportunities s) \<le> 50"
      "\<forall>opp\<in>set (opportunities s). 0 \<le> profitETH opp \<and> profitETH opp \<le> 1"
  proof -
    have "\<forall>x\<in>set (map profitETH (opportunities s)). 0 \<le> x \<and> x \<le> 1"
      using that(3) by simp
    then show ?thesis
      using float_avg_error[of "map profitETH (opportunities s)"] that(1,2)
      by (simp add: avg)
  qed
  show ?thesis using front oldest avg near by blast
qed

text \<open>
  The theorem at a buffer of two: the estimates 0.005000 and 0.005001 have the mean
  0.0050005; the sum of the two Numbers, halved, lies just below it, and the handler
  prints 0.005000.
\<close>

theorem api_flashloans_best_avg_witness:
  "map profitETH (opportunities (scans [env_5000, env_5001] (after_main True True (\<lambda>n. 1 / 2) 0)))
     = [1 / 200, 5001 / 1000000] \<and>
   best (api_flashloans (scans [env_5000, env_5001] (after_main True True (\<lambda>n. 1 / 2) 0)))
     = Some (make_opportunity env_5000 19000000 (Some 20000000000)) \<and>
   avgProfitETH (api_flashloans (scans [env_5000, env_5001] (after_main True True (\<lambda>n. 1 / 2) 0)))
     = 1 / 200 \<and>
   sum_list (map profitETH (opportunities (scans [env_5000, env_5001] (after_main True True (\<lambda>n. 1 / 2) 0))))
     / of_nat (length (opportunities (scans [env_5000, env_5001] (after_main True True (\<lambda>n. 1 / 2) 0))))
     = 10001 / 2000000 \<and>
   \<bar>avgProfitETH (api_flashloans (scans [env_5000, env_5001] (after_main True True (\<lambda>n. 1 / 2) 0)))
      - sum_list (map profitETH (opportunities (scans [env_5000, env_5001] (after_main True True (\<lambda>n. 1 / 2) 0))))
        / of_nat (length (opportunities (scans [env_5000, env_5001] (after_main True True (\<lambda>n. 1 / 2) 0))))\<bar>
     \<le> 1 / 2000000 + 1 / 10 ^ 13"
proof -
  define s where "s = scans [env_5000, env_5001] (after_main True True (\<lambda>n. 1 / 2) 0)"
  have ops: "opportunities s = [make_opportunity env_5000 19000000 (Some 20000000000),
      make_opportunity env_5001 19000001 (Some 20000000000)]"
    unfolding s_def by (rule scans_tie)
  have profits: "map profitETH (opportunities s) = [1 / 200, 5001 / 1000000]"
    by (simp add: ops profit_tie)
  have hyp: "opportunities s \<noteq> [] \<and> length (opportunities s) \<le> 50 \<and>
    (\<forall>opp\<in>set (opportunities s). 0 \<le> profitETH opp \<and> profitETH opp \<le> 1)"
    by (simp add: ops profit_tie)
  note inst = api_flashloans_best_avg[of s "[env_5000, env_5001]" True "\<lambda>n. 1 / 2" 0]
  have front: "best (api_flashloans s) = Some (make_opportunity env_5000 19000000 (Some 20000000000))"
    using inst by (simp add: ops)
  have avg: "avgProfitETH (api_flashloans s) = 1 / 200"
    using inst float_avg_tie by (simp add: ops profit_tie)
  have mean: "sum_list (map profitETH (opportunities s)) / of_nat (length (opportunities s))
      = 10001 / 2000000"
    by (simp add: profits) (simp add: ops)
  have near: "\<bar>avgProfitETH (api_flashloans s)
      - sum_list (map profitETH (opportunities s)) / of_nat (length (opportunities s))\<bar>
     \<le> 1 / 2000000 + 1 / 10 ^ 13"
    using inst hyp by blast
  show ?thesis
    using profits front avg mean near unfolding s_def by blast
qed

text \<open>
  Against claim C8 as stated: after two scans the buffer holds the opportunity of
  time 1004 and then the one of time 7000; \<open>best\<close> is the first, not the most recent.
\<close>

theorem api_flashloans_best_counterexample:
  "opportunities (scans [env_good, env_later] (after_main True True (\<lambda>n. 1 / 2) 0))
     = [make_opportunity env_good 19000000 (Some 20000000000),
        make_opportunity env_later 19000001 (Some 20000000000)] \<and>
   timestamp (make_opportunity env_good 19000000 (Some 20000000000)) = 1004 \<and>
   timestamp (make_opportunity env_later 19000001 (Some 20000000000)) = 7000 \<and>
   best (api_flashloans (scans [env_good, env_later] (after_main True True (\<lambda>n. 1 / 2) 0)))
     = Some (make_opportunity env_good 19000000 (Some 20000000000)) \<and>
   best (api_flashloans (scans [env_good, env_later] (after_main True True (\<lambda>n. 1 / 2) 0)))
     \<noteq> Some (last (opportunities (scans [env_good, env_later] (after_main True True (\<lambda>n. 1 / 2) 0))))"
proof -
  have ts: "timestamp (make_opportunity env_good 19000000 (Some 20000000000)) = 1004"
    "timestamp (make_opportunity env_later 19000001 (Some 20000000000)) = 7000"
    by (simp_all add: make_opportunity_def env_good_def env_later_def)
  then have ne: "make_opportunity env_good 19000000 (Some 20000000000)
      \<noteq> make_opportunity env_later 19000001 (Some 20000000000)"
    by auto
  show ?thesis
    using ts ne by (simp add: api_flashloans_def Let_def scans_two del: scans.simps)
qed

end
